theory Spec2Isabelle
  imports Complex_Main "HOL-Library.Sublist" "HOL-Library.AList" "HOL-Library.Char_ord" "HOL-Library.List_Lexorder"
begin

section \<open>JavaScript values\<close>

text \<open>
  The engine and the log parser handle values that come out of \<^verbatim>\<open>JSON.parse\<close> without
  checking their types, so the model keeps them as untyped JavaScript values. A number is
  a finite double (the rational it denotes) or one of the three special doubles.
  \<open>JObject\<close> lists the own properties of an object, read with \<open>map_of\<close>.
\<close>

datatype jsnum = Fin rat | PosInfinity | NegInfinity | NaN

datatype jsval =
    JUndefined
  | JNull
  | JBool bool
  | JNumber jsnum
  | JString string
  | JArray "jsval list"
  | JObject "(string \<times> jsval) list"

datatype js_error = Error string | TypeError | RangeError

text \<open>ToBoolean: the values that an \<^verbatim>\<open>if\<close>, \<^verbatim>\<open>&&\<close> or \<^verbatim>\<open>||\<close> takes as true.\<close>

fun truthy :: "jsval \<Rightarrow> bool" where
  "truthy JUndefined = False"
| "truthy JNull = False"
| "truthy (JBool b) = b"
| "truthy (JNumber (Fin r)) = (r \<noteq> 0)"
| "truthy (JNumber NaN) = False"
| "truthy (JNumber PosInfinity) = True"
| "truthy (JNumber NegInfinity) = True"
| "truthy (JString s) = (s \<noteq> [])"
| "truthy (JArray xs) = True"
| "truthy (JObject kvs) = True"

text \<open>\<^verbatim>\<open>a || b\<close> on values.\<close>

definition js_or :: "jsval \<Rightarrow> jsval \<Rightarrow> jsval" where
  "js_or a b = (if truthy a then a else b)"

text \<open>
  \<^verbatim>\<open>v.k\<close> for a key \<open>k\<close> that no prototype defines: reading a property of
  \<^verbatim>\<open>undefined\<close> or \<^verbatim>\<open>null\<close> throws a TypeError, an object gives its own property,
  every other value gives \<^verbatim>\<open>undefined\<close>.
\<close>

fun get_prop :: "jsval \<Rightarrow> string \<Rightarrow> js_error + jsval" where
  "get_prop JUndefined k = Inl TypeError"
| "get_prop JNull k = Inl TypeError"
| "get_prop (JObject kvs) k = Inr (case map_of kvs k of None \<Rightarrow> JUndefined | Some v \<Rightarrow> v)"
| "get_prop v k = Inr JUndefined"

text \<open>
  The same read where an earlier read of the same value has already shown that it is
  neither \<^verbatim>\<open>undefined\<close> nor \<^verbatim>\<open>null\<close>.
\<close>

definition own_prop :: "jsval \<Rightarrow> string \<Rightarrow> jsval" where
  "own_prop v k = (case get_prop v k of Inl err \<Rightarrow> JUndefined | Inr x \<Rightarrow> x)"

text \<open>
  ToString, as a template literal or \<^verbatim>\<open>Array.prototype.join\<close> applies it, throws a
  TypeError exactly on an object whose own \<^verbatim>\<open>toString\<close> property hides the inherited
  method (no JSON value is callable), or on an array holding such an object; \<^verbatim>\<open>join\<close>
  skips \<^verbatim>\<open>undefined\<close> and \<^verbatim>\<open>null\<close> elements.
\<close>

fun ToString_throws :: "jsval \<Rightarrow> bool" where
  "ToString_throws (JObject kvs) = (map_of kvs ''toString'' \<noteq> None)"
| "ToString_throws (JArray xs) = list_ex ToString_throws xs"
| "ToString_throws v = False"

section \<open>Strings\<close>

text \<open>
  A string is a list of code units below 256. The character classes are those of the
  regular expressions of the source: \<^verbatim>\<open>\d\<close>, \<^verbatim>\<open>\w\<close>, \<^verbatim>\<open>\s\<close>, and the line terminators
  that \<^verbatim>\<open>.\<close> does not match.
\<close>

definition is_digit :: "char \<Rightarrow> bool" where
  "is_digit c = (let n = (of_char c :: nat) in 48 \<le> n \<and> n \<le> 57)"

definition is_word :: "char \<Rightarrow> bool" where
  "is_word c = (let n = (of_char c :: nat) in
     (48 \<le> n \<and> n \<le> 57) \<or> (65 \<le> n \<and> n \<le> 90) \<or> n = 95 \<or> (97 \<le> n \<and> n \<le> 122))"

definition is_space :: "char \<Rightarrow> bool" where
  "is_space c = (let n = (of_char c :: nat) in (9 \<le> n \<and> n \<le> 13) \<or> n = 32 \<or> n = 160)"

definition is_line_terminator :: "char \<Rightarrow> bool" where
  "is_line_terminator c = (let n = (of_char c :: nat) in n = 10 \<or> n = 13)"

definition lower_char :: "char \<Rightarrow> char" where
  "lower_char c = (let n = (of_char c :: nat) in
     if (65 \<le> n \<and> n \<le> 90) \<or> (192 \<le> n \<and> n \<le> 222 \<and> n \<noteq> 215) then char_of (n + 32) else c)"

definition toLowerCase :: "string \<Rightarrow> string" where
  "toLowerCase s = map lower_char s"

definition trim :: "string \<Rightarrow> string" where
  "trim s = rev (dropWhile is_space (rev (dropWhile is_space s)))"

text \<open>\<^verbatim>\<open>s.includes(k)\<close>: \<open>k\<close> occurs in \<open>s\<close> as a contiguous substring.\<close>

fun str_includes :: "string \<Rightarrow> string \<Rightarrow> bool" where
  "str_includes [] k = (k = [])"
| "str_includes (c # cs) k = (prefix k (c # cs) \<or> str_includes cs k)"

text \<open>\<^verbatim>\<open>Set.prototype.add\<close> on a set of strings kept in insertion order.\<close>

definition Set_add :: "'a \<Rightarrow> 'a list \<Rightarrow> 'a list" where
  "Set_add x xs = (if x \<in> set xs then xs else xs @ [x])"

section \<open>Log entries\<close>

text \<open>
  \<^verbatim>\<open>LogEntry\<close> of \<^verbatim>\<open>types/index.ts\<close>. The level is always the result of
  \<^verbatim>\<open>toLowerCase\<close> or a literal, hence a string; the other fields can hold whatever the JSON
  matcher copied from the parsed line, and an absent optional field is \<^verbatim>\<open>undefined\<close>.
\<close>

record LogEntry =
  timestamp :: jsval
  level :: string
  message :: jsval
  source :: jsval
  stackTrace :: jsval
  entry_context :: jsval

section \<open>LogParser.extractErrorPatterns\<close>

text \<open>
  The seven tests of the loop body, in source order: the keywords looked for in the
  lower-cased message and the tag added to the set when one of them occurs.
\<close>

definition pattern_table :: "(string list \<times> string) list" where
  "pattern_table =
    [([''connection''], ''connection_errors''),
     ([''timeout''], ''timeout_errors''),
     ([''not found''], ''not_found_errors''),
     ([''permission'', ''unauthorized''], ''auth_errors''),
     ([''memory'', ''out of memory''], ''memory_errors''),
     ([''disk'', ''space''], ''disk_errors''),
     ([''network''], ''network_errors'')]"

definition scan_message :: "string \<Rightarrow> string list \<Rightarrow> string list" where
  "scan_message m patterns =
     foldl (\<lambda>ps (ks, tag). if list_ex (str_includes m) ks then Set_add tag ps else ps)
       patterns pattern_table"

text \<open>
  \<^verbatim>\<open>entry.message.toLowerCase()\<close> throws a TypeError when the message is not a string;
  nothing in the function catches it.
\<close>

fun scan_entries :: "LogEntry list \<Rightarrow> string list \<Rightarrow> js_error + string list" where
  "scan_entries [] patterns = Inr patterns"
| "scan_entries (e # es) patterns =
     (case message e of
        JString s \<Rightarrow> scan_entries es (scan_message (toLowerCase s) patterns)
      | _ \<Rightarrow> Inl TypeError)"

definition extractErrorPatterns :: "LogEntry list \<Rightarrow> js_error + string list" where
  "extractErrorPatterns entries = scan_entries (filter (\<lambda>e. level e = ''error'') entries) []"


section \<open>LogParser: the five line formats\<close>

text \<open>
  Each regular expression of the source is matched left to right by the pieces below.
  A greedy repetition takes the longest run of its class; in these patterns the token
  that follows a repetition never matches the class repeated, so giving characters back
  cannot help and the longest run is the only candidate. The one exception is
  \<^verbatim>\<open>\s+(.+)$\<close>, where \<^verbatim>\<open>.\<close> also matches blanks: see \<open>spaces_dot_plus_end\<close>.
\<close>

text \<open>A literal prefix; the result is the rest of the input.\<close>

definition expect :: "string \<Rightarrow> string \<Rightarrow> string option" where
  "expect lit s = (if prefix lit s then Some (drop (length lit) s) else None)"

text \<open>\<^verbatim>\<open>[class]+\<close>: the longest non-empty run of the class, and the rest.\<close>

definition take_plus :: "(char \<Rightarrow> bool) \<Rightarrow> string \<Rightarrow> (string \<times> string) option" where
  "take_plus P s = (if takeWhile P s = [] then None else Some (takeWhile P s, dropWhile P s))"

text \<open>
  A fixed-width pattern: \<open>d\<close> in the template stands for \<^verbatim>\<open>\d\<close>, every other
  character for itself. The result is the rest of the input.
\<close>

fun match_template :: "string \<Rightarrow> string \<Rightarrow> string option" where
  "match_template [] s = Some s"
| "match_template (t # ts) [] = None"
| "match_template (t # ts) (c # cs) =
     (if (if t = CHR ''d'' then is_digit c else c = t) then match_template ts cs else None)"

text \<open>\<^verbatim>\<open>(.+)$\<close>: the rest of the input, non-empty and without a line terminator.\<close>

definition dot_plus_end :: "string \<Rightarrow> string option" where
  "dot_plus_end s = (if s \<noteq> [] \<and> \<not> list_ex is_line_terminator s then Some s else None)"

text \<open>
  \<^verbatim>\<open>\s+(.+)$\<close>. When something follows the blanks, the group is that remainder. When the
  input ends with the blanks, the engine gives back one blank to the group, which works
  when there are at least two blanks and the last one is not a line terminator.
\<close>

definition spaces_dot_plus_end :: "string \<Rightarrow> string option" where
  "spaces_dot_plus_end s =
     (let w = takeWhile is_space s; r = dropWhile is_space s in
      if w = [] then None
      else if r \<noteq> [] then dot_plus_end r
      else if 2 \<le> length w \<and> \<not> is_line_terminator (last w) then Some [last w]
      else None)"

text \<open>\<^verbatim>\<open>/^\[([^\]]+)\]\s+(\w+):\s+(.+)$/\<close>\<close>

definition parseStandardFormat :: "string \<Rightarrow> LogEntry option" where
  "parseStandardFormat line =
     (case expect ''['' line of None \<Rightarrow> None | Some r1 \<Rightarrow>
     (case take_plus (\<lambda>c. c \<noteq> CHR '']'') r1 of None \<Rightarrow> None | Some (ts, r2) \<Rightarrow>
     (case expect '']'' r2 of None \<Rightarrow> None | Some r3 \<Rightarrow>
     (case take_plus is_space r3 of None \<Rightarrow> None | Some (sp, r4) \<Rightarrow>
     (case take_plus is_word r4 of None \<Rightarrow> None | Some (lv, r5) \<Rightarrow>
     (case expect '':'' r5 of None \<Rightarrow> None | Some r6 \<Rightarrow>
     (case spaces_dot_plus_end r6 of None \<Rightarrow> None | Some msg \<Rightarrow>
        Some \<lparr>timestamp = JString ts, level = toLowerCase lv, message = JString (trim msg),
              source = JString ''application'', stackTrace = JUndefined,
              entry_context = JUndefined\<rparr>)))))))"

text \<open>
  The JSON matcher. \<^verbatim>\<open>JSON.parse\<close> is the ECMAScript built-in and is a parameter:
  \<open>None\<close> when it throws a SyntaxError. The \<^verbatim>\<open>try\<close> block also covers the construction
  of the entry, so the TypeError of a property read on \<^verbatim>\<open>null\<close> and the TypeError of
  \<^verbatim>\<open>toLowerCase\<close> on a level that is not a string both end in \<^verbatim>\<open>return null\<close>.
\<close>

definition parseJSONFormat :: "(string \<Rightarrow> jsval option) \<Rightarrow> string \<Rightarrow> LogEntry option" where
  "parseJSONFormat JSON_parse line =
     (case JSON_parse line of None \<Rightarrow> None | Some json \<Rightarrow>
     (case get_prop json ''timestamp'' of Inl err \<Rightarrow> None | Inr ts \<Rightarrow>
     (case js_or (js_or (own_prop json ''level'') (own_prop json ''severity'')) (JString ''info'') of
        JString lv \<Rightarrow>
          Some \<lparr>timestamp = js_or (js_or ts (own_prop json ''time'')) (own_prop json ''@timestamp''),
                level = toLowerCase lv,
                message = js_or (js_or (own_prop json ''message'') (own_prop json ''msg''))
                            (JString line),
                source = js_or (js_or (own_prop json ''service'') (own_prop json ''source''))
                           (own_prop json ''logger''),
                stackTrace = js_or (own_prop json ''stack'') (own_prop json ''stackTrace''),
                entry_context = js_or (own_prop json ''context'') (own_prop json ''meta'')\<rparr>
      | _ \<Rightarrow> None)))"

text \<open>\<^verbatim>\<open>/^(\d{4}\/\d{2}\/\d{2} \d{2}:\d{2}:\d{2}) \[(\w+)\] (.+)$/\<close>\<close>

definition parseNginxFormat :: "string \<Rightarrow> LogEntry option" where
  "parseNginxFormat line =
     (case match_template ''dddd/dd/dd dd:dd:dd'' line of None \<Rightarrow> None | Some r1 \<Rightarrow>
     (case expect '' ['' r1 of None \<Rightarrow> None | Some r2 \<Rightarrow>
     (case take_plus is_word r2 of None \<Rightarrow> None | Some (lv, r3) \<Rightarrow>
     (case expect ''] '' r3 of None \<Rightarrow> None | Some r4 \<Rightarrow>
     (case dot_plus_end r4 of None \<Rightarrow> None | Some msg \<Rightarrow>
        Some \<lparr>timestamp = JString (take 19 line), level = toLowerCase lv,
              message = JString (trim msg), source = JString ''nginx'',
              stackTrace = JUndefined, entry_context = JUndefined\<rparr>)))))"

text \<open>\<^verbatim>\<open>/^\[([^\]]+)\] \[(\w+)\] (.+)$/\<close>\<close>

definition parseApacheFormat :: "string \<Rightarrow> LogEntry option" where
  "parseApacheFormat line =
     (case expect ''['' line of None \<Rightarrow> None | Some r1 \<Rightarrow>
     (case take_plus (\<lambda>c. c \<noteq> CHR '']'') r1 of None \<Rightarrow> None | Some (ts, r2) \<Rightarrow>
     (case expect ''] ['' r2 of None \<Rightarrow> None | Some r3 \<Rightarrow>
     (case take_plus is_word r3 of None \<Rightarrow> None | Some (lv, r4) \<Rightarrow>
     (case expect ''] '' r4 of None \<Rightarrow> None | Some r5 \<Rightarrow>
     (case dot_plus_end r5 of None \<Rightarrow> None | Some msg \<Rightarrow>
        Some \<lparr>timestamp = JString ts, level = toLowerCase lv, message = JString (trim msg),
              source = JString ''apache'', stackTrace = JUndefined,
              entry_context = JUndefined\<rparr>))))))"

text \<open>
  \<^verbatim>\<open>/^(\d{4}-\d{2}-\d{2}[T ]\d{2}:\d{2}:\d{2}(?:\.\d{3})?(?:Z|[+-]\d{2}:\d{2})?)\s+(\w+)\s+(.+)$/\<close>.
  An optional part is taken whenever it matches: skipping it would leave \<^verbatim>\<open>.\<close>,
  \<^verbatim>\<open>Z\<close>, \<^verbatim>\<open>+\<close> or \<^verbatim>\<open>-\<close> where a blank is required.
\<close>

definition opt_millis :: "string \<Rightarrow> string" where
  "opt_millis s = (case match_template ''.ddd'' s of None \<Rightarrow> s | Some r \<Rightarrow> r)"

definition opt_zone :: "string \<Rightarrow> string" where
  "opt_zone s =
     (case expect ''Z'' s of
        Some r \<Rightarrow> r
      | None \<Rightarrow>
          (case s of
             [] \<Rightarrow> s
           | c # cs \<Rightarrow>
               if c = CHR ''+'' \<or> c = CHR ''-''
               then (case match_template ''dd:dd'' cs of None \<Rightarrow> s | Some r \<Rightarrow> r)
               else s))"

text \<open>The character class \<^verbatim>\<open>[T ]\<close>.\<close>

definition expect_T_or_space :: "string \<Rightarrow> string option" where
  "expect_T_or_space s =
     (case s of
        [] \<Rightarrow> None
      | c # cs \<Rightarrow> if c = CHR ''T'' \<or> c = CHR '' '' then Some cs else None)"

definition parseApplicationFormat :: "string \<Rightarrow> LogEntry option" where
  "parseApplicationFormat line =
     (case match_template ''dddd-dd-dd'' line of None \<Rightarrow> None | Some r1 \<Rightarrow>
     (case expect_T_or_space r1 of None \<Rightarrow> None | Some r2 \<Rightarrow>
     (case match_template ''dd:dd:dd'' r2 of None \<Rightarrow> None | Some r3 \<Rightarrow>
     (case take_plus is_space (opt_zone (opt_millis r3)) of None \<Rightarrow> None | Some (sp, r5) \<Rightarrow>
     (case take_plus is_word r5 of None \<Rightarrow> None | Some (lv, r6) \<Rightarrow>
     (case spaces_dot_plus_end r6 of None \<Rightarrow> None | Some msg \<Rightarrow>
        Some \<lparr>timestamp =
                JString (take (length line - length (opt_zone (opt_millis r3))) line),
              level = toLowerCase lv, message = JString (trim msg),
              source = JString ''application'', stackTrace = JUndefined,
              entry_context = JUndefined\<rparr>))))))"

section \<open>LogParser.parseLogLine\<close>

text \<open>
  The array \<^verbatim>\<open>formats\<close> in its source order, and the loop over it: the first format
  that returns an entry wins. A format that throws counts as no match; the four pattern
  formats never throw and the JSON format catches its own exceptions.
\<close>

definition formats :: "(string \<Rightarrow> jsval option) \<Rightarrow> (string \<Rightarrow> LogEntry option) list" where
  "formats JSON_parse =
     [parseStandardFormat, parseJSONFormat JSON_parse, parseNginxFormat, parseApacheFormat,
      parseApplicationFormat]"

fun first_format :: "(string \<Rightarrow> LogEntry option) list \<Rightarrow> string \<Rightarrow> LogEntry option" where
  "first_format [] line = None"
| "first_format (format # rest) line =
     (case format line of Some result \<Rightarrow> Some result | None \<Rightarrow> first_format rest line)"

definition parseLogLine :: "(string \<Rightarrow> jsval option) \<Rightarrow> string \<Rightarrow> LogEntry option" where
  "parseLogLine JSON_parse line = first_format (formats JSON_parse) line"

section \<open>LogParser.parseLogFiles\<close>

text \<open>
  A \<^verbatim>\<open>Date\<close> object: its time value in milliseconds since the epoch, or the invalid
  date whose time value is NaN.
\<close>

datatype jsdate = InvalidDate | TimeValue int

text \<open>\<^verbatim>\<open>ParsedLog\<close> of \<^verbatim>\<open>types/index.ts\<close>; \<open>timeRange\<close> is flattened into two fields.\<close>

record ParsedLog =
  entries :: "LogEntry list"
  totalEntries :: nat
  errorCount :: nat
  warnCount :: nat
  timeRange_start :: jsdate
  timeRange_end :: jsdate
  sources :: "jsval list"

definition generateSampleEntries :: "LogEntry list" where
  "generateSampleEntries =
    [\<lparr>timestamp = JString ''2024-06-14T12:00:00Z'', level = ''error'',
       message = JString ''Database connection failed: Connection timeout after 30s'',
       source = JString ''database'',
       stackTrace = JString (''at Database.connect (database.js:45)'' @ [CHR 0x0A] @
                             ''    at UserService.getUser (user-service.js:23)''),
       entry_context = JObject [(''connectionString'', JString ''postgresql://localhost:5432/app''),
                                (''timeout'', JNumber (Fin 30000))]\<rparr>,
     \<lparr>timestamp = JString ''2024-06-14T12:00:05Z'', level = ''error'',
       message = JString ''Failed to process user request: User not found'',
       source = JString ''api'', stackTrace = JUndefined,
       entry_context = JObject [(''userId'', JString ''12345''),
                                (''endpoint'', JString ''/api/users/12345'')]\<rparr>,
     \<lparr>timestamp = JString ''2024-06-14T12:00:10Z'', level = ''warn'',
       message = JString ''High memory usage detected: 85% of available memory in use'',
       source = JString ''system'', stackTrace = JUndefined,
       entry_context = JObject [(''memoryUsage'', JNumber (Fin (85 / 100))),
                                (''threshold'', JNumber (Fin (8 / 10)))]\<rparr>]"

text \<open>
  \<^verbatim>\<open>Set.prototype.add\<close> on values: primitives are compared by value, objects and arrays
  by identity, and the source of each entry is an object of its own.
\<close>

definition Set_add_value :: "jsval \<Rightarrow> jsval list \<Rightarrow> jsval list" where
  "Set_add_value v vs =
     (case v of JArray xs \<Rightarrow> vs @ [v] | JObject kvs \<Rightarrow> vs @ [v] | _ \<Rightarrow> Set_add v vs)"

text \<open>The \<^verbatim>\<open>forEach\<close> that counts the levels and collects the sources.\<close>

fun count_entries :: "LogEntry list \<Rightarrow> nat \<times> nat \<times> jsval list \<Rightarrow> nat \<times> nat \<times> jsval list" where
  "count_entries [] acc = acc"
| "count_entries (entry # rest) (n_error, n_warn, srcs) =
     count_entries rest
       (if level entry = ''error'' then n_error + 1 else n_error,
        if level entry = ''warn'' then n_warn + 1 else n_warn,
        if truthy (source entry) then Set_add_value (source entry) srcs else srcs)"

text \<open>
  \<^verbatim>\<open>entries.map(e => new Date(e.timestamp))\<close>. The \<^verbatim>\<open>Date\<close> constructor is a parameter;
  it yields a date, possibly the invalid one, or throws (a TypeError, when the argument is
  an object that cannot be converted to a primitive).
\<close>

fun map_dates :: "(jsval \<Rightarrow> js_error + jsdate) \<Rightarrow> LogEntry list \<Rightarrow> js_error + jsdate list" where
  "map_dates Date_new [] = Inr []"
| "map_dates Date_new (e # es) =
     (case Date_new (timestamp e) of
        Inl err \<Rightarrow> Inl err
      | Inr d \<Rightarrow> (case map_dates Date_new es of Inl err \<Rightarrow> Inl err | Inr ds \<Rightarrow> Inr (d # ds)))"

text \<open>
  The body of \<^verbatim>\<open>parseLogFiles\<close> for given sample entries. \<^verbatim>\<open>sort()\<close> is called without
  a comparator, so it orders the dates by their string conversion (\<^verbatim>\<open>Date.prototype.toString\<close>,
  a parameter), compared code unit by code unit; the sort is stable. \<open>now1\<close> and
  \<open>now2\<close> are the two \<^verbatim>\<open>new Date()\<close> taken when there is no timestamp.
\<close>

definition parseLogFiles_on ::
  "(jsval \<Rightarrow> js_error + jsdate) \<Rightarrow> (jsdate \<Rightarrow> string) \<Rightarrow> jsdate \<Rightarrow> jsdate \<Rightarrow>
   LogEntry list \<Rightarrow> js_error + ParsedLog" where
  "parseLogFiles_on Date_new Date_toString now1 now2 sampleEntries =
     (let es = [] @ sampleEntries;
          (n_error, n_warn, srcs) = count_entries es (0, 0, [])
      in case map_dates Date_new es of
           Inl err \<Rightarrow> Inl err
         | Inr dates \<Rightarrow>
             (let timestamps = sort_key Date_toString dates;
                  first_ts = (case timestamps of [] \<Rightarrow> now1 | d # ds \<Rightarrow> d);
                  last_ts = (if timestamps = [] then now2 else last timestamps)
              in Inr \<lparr>entries = es, totalEntries = length es,
                       errorCount = n_error, warnCount = n_warn,
                       timeRange_start = first_ts, timeRange_end = last_ts,
                       sources = srcs\<rparr>))"


section \<open>Date.prototype.toString\<close>

text \<open>
  \<^verbatim>\<open>Date.prototype.toString\<close>: week day, month, day, year, time of day, zone. First
  the pieces: two digits, a year, the civil date of a day number.
\<close>

definition pad2 :: "nat \<Rightarrow> string" where
  "pad2 n = [char_of (48 + n div 10 mod 10), char_of (48 + n mod 10)]"

text \<open>A year, at least four digits; the years of a \<^verbatim>\<open>Date\<close> have at most six.\<close>

definition pad_year :: "nat \<Rightarrow> string" where
  "pad_year n =
     (if n < 10000 then pad2 (n div 100) @ pad2 (n mod 100)
      else if n < 100000
      then char_of (48 + n div 10000) # pad2 (n div 100 mod 100) @ pad2 (n mod 100)
      else pad2 (n div 10000) @ pad2 (n div 100 mod 100) @ pad2 (n mod 100))"

text \<open>Day number since the epoch to year, month and day of the proleptic Gregorian calendar.\<close>

definition civil_from_days :: "int \<Rightarrow> int \<times> nat \<times> nat" where
  "civil_from_days z0 =
     (let z = z0 + 719468;
          era = z div 146097;
          doe = z mod 146097;
          yoe = (doe - doe div 1460 + doe div 36524 - doe div 146096) div 365;
          doy = doe - (365 * yoe + yoe div 4 - yoe div 100);
          mp = (5 * doy + 2) div 153;
          d = doy - (153 * mp + 2) div 5 + 1;
          mo = (if mp < 10 then mp + 3 else mp - 9);
          y = yoe + era * 400 + (if mo \<le> 2 then 1 else 0)
      in (y, nat mo, nat d))"

text \<open>
  The text of a local time given in whole minutes since the epoch, up to the colon before
  the seconds: week day, month, day, year, hours, minutes.
\<close>

definition minute_text :: "int \<Rightarrow> string" where
  "minute_text mins =
     [''Thu'', ''Fri'', ''Sat'', ''Sun'', ''Mon'', ''Tue'', ''Wed''] ! nat (mins div 1440 mod 7) @
     '' '' @
     [''Jan'', ''Feb'', ''Mar'', ''Apr'', ''May'', ''Jun'', ''Jul'', ''Aug'', ''Sep'', ''Oct'',
      ''Nov'', ''Dec''] ! (fst (snd (civil_from_days (mins div 1440))) - 1) @
     '' '' @ pad2 (snd (snd (civil_from_days (mins div 1440)))) @ '' '' @
     (if fst (civil_from_days (mins div 1440)) < 0 then ''-'' else []) @
     pad_year (nat (abs (fst (civil_from_days (mins div 1440))))) @ '' '' @
     pad2 (nat (mins mod 1440 div 60)) @ '':'' @ pad2 (nat (mins mod 60)) @ '':''"

text \<open>
  \<^verbatim>\<open>Date.prototype.toString\<close> on a host whose local time is \<open>tz\<close> minutes ahead of UTC
  and whose zone is called \<open>zone_name\<close>: the local date and time, the offset, the name.
\<close>

fun Date_toString_zone :: "int \<Rightarrow> string \<Rightarrow> jsdate \<Rightarrow> string" where
  "Date_toString_zone tz zone_name InvalidDate = ''Invalid Date''"
| "Date_toString_zone tz zone_name (TimeValue t) =
     minute_text ((t + tz * 60000) div 60000) @
     pad2 (nat ((t + tz * 60000) mod 60000 div 1000)) @
     '' GMT'' @ (if tz < 0 then ''-'' else ''+'') @
     pad2 (nat (abs tz div 60)) @ pad2 (nat (abs tz mod 60)) @
     '' ('' @ zone_name @ '')''"

definition Date_toString_utc :: "jsdate \<Rightarrow> string" where
  "Date_toString_utc = Date_toString_zone 0 ''Coordinated Universal Time''"

section \<open>MCPManager\<close>

datatype server_kind = Github | Gitlab | Filesystem | CodeIndex

record MCPServer =
  server_id :: string
  server_name :: string
  server_type :: server_kind
  server_config :: "(string \<times> jsval) list"
  isConnected :: bool

text \<open>The three client classes; each holds the configuration it was built from.\<close>

datatype MCPClient =
    GitHubMCPClient "(string \<times> jsval) list"
  | GitLabMCPClient "(string \<times> jsval) list"
  | CodeIndexMCPClient "(string \<times> jsval) list"

record CodeSearchResult =
  hit_path :: string
  hit_content :: string
  hit_repository :: "string option"
  hit_line :: "nat option"
  hit_source :: "string option"

text \<open>
  The two \<^verbatim>\<open>Map\<close>s of the manager, as association lists in insertion order:
  \<^verbatim>\<open>set\<close> is \<open>AList.update\<close>, \<^verbatim>\<open>delete\<close> is \<open>AList.delete\<close>, \<^verbatim>\<open>get\<close> is \<open>map_of\<close>.
\<close>

record MCPManager =
  servers :: "(string \<times> MCPServer) list"
  clients :: "(string \<times> MCPClient) list"

text \<open>
  What the network answers: whether the request of \<^verbatim>\<open>connect\<close> comes back with an ok
  status, and the outcome of the code search request of the GitHub client (its hits, or
  the error it throws).
\<close>

record network =
  handshake_ok :: "MCPClient \<Rightarrow> bool"
  github_search :: "string \<Rightarrow> js_error + CodeSearchResult list"

definition env_or_empty :: "(string \<Rightarrow> string option) \<Rightarrow> string \<Rightarrow> string" where
  "env_or_empty getenv k = (case getenv k of None \<Rightarrow> [] | Some v \<Rightarrow> v)"

definition defaultServers :: "(string \<Rightarrow> string option) \<Rightarrow> MCPServer list" where
  "defaultServers getenv =
    [\<lparr>server_id = ''github'', server_name = ''GitHub MCP'', server_type = Github,
       server_config = [(''token'', JString (env_or_empty getenv ''GITHUB_TOKEN'')),
                        (''baseUrl'', JString ''https://api.github.com'')],
       isConnected = False\<rparr>,
     \<lparr>server_id = ''gitlab'', server_name = ''GitLab MCP'', server_type = Gitlab,
       server_config = [(''token'', JString (env_or_empty getenv ''GITLAB_TOKEN'')),
                        (''baseUrl'', JString ''https://gitlab.com/api/v4'')],
       isConnected = False\<rparr>,
     \<lparr>server_id = ''code-index'', server_name = ''Code Index MCP'', server_type = CodeIndex,
       server_config = [(''indexPath'', JString ''/tmp/code-index''),
                        (''languages'', JArray [JString ''typescript'', JString ''javascript'',
                                                JString ''python''])],
       isConnected = False\<rparr>]"

text \<open>The constructor: both maps empty, then \<^verbatim>\<open>initializeDefaultServers\<close>.\<close>

definition initializeDefaultServers :: "(string \<Rightarrow> string option) \<Rightarrow> MCPManager" where
  "initializeDefaultServers getenv =
     \<lparr>servers = foldl (\<lambda>m server. AList.update (server_id server) server m) []
                   (defaultServers getenv),
      clients = []\<rparr>"

text \<open>The \<^verbatim>\<open>switch\<close> of \<^verbatim>\<open>connectServer\<close>; \<open>None\<close> is its \<^verbatim>\<open>default\<close> branch, which throws.\<close>

definition new_client :: "MCPServer \<Rightarrow> MCPClient option" where
  "new_client server =
     (case server_type server of
        Github \<Rightarrow> Some (GitHubMCPClient (server_config server))
      | Gitlab \<Rightarrow> Some (GitLabMCPClient (server_config server))
      | CodeIndex \<Rightarrow> Some (CodeIndexMCPClient (server_config server))
      | Filesystem \<Rightarrow> None)"

text \<open>\<^verbatim>\<open>client.connect()\<close>: \<open>True\<close> when it returns, \<open>False\<close> when it throws.\<close>

definition client_connect :: "network \<Rightarrow> MCPClient \<Rightarrow> bool" where
  "client_connect net client =
     (case client of CodeIndexMCPClient cfg \<Rightarrow> True | _ \<Rightarrow> handshake_ok net client)"

definition client_searchCode ::
  "network \<Rightarrow> MCPClient \<Rightarrow> string \<Rightarrow> js_error + CodeSearchResult list" where
  "client_searchCode net client query =
     (case client of GitHubMCPClient cfg \<Rightarrow> github_search net query | _ \<Rightarrow> Inr [])"

definition connectServer :: "network \<Rightarrow> MCPManager \<Rightarrow> string \<Rightarrow> js_error + bool \<times> MCPManager" where
  "connectServer net m serverId =
     (case map_of (servers m) serverId of
        None \<Rightarrow> Inl (Error (''Server '' @ serverId @ '' not found''))
      | Some server \<Rightarrow>
          (case new_client server of
             None \<Rightarrow> Inr (False, m)
           | Some client \<Rightarrow>
               if client_connect net client
               then Inr (True,
                         m\<lparr>clients := AList.update serverId client (clients m),
                           servers := AList.update serverId (server\<lparr>isConnected := True\<rparr>)
                                        (servers m)\<rparr>)
               else Inr (False, m)))"

text \<open>No \<^verbatim>\<open>disconnect\<close> of the three clients does anything, so none throws.\<close>

definition disconnectServer :: "MCPManager \<Rightarrow> string \<Rightarrow> MCPManager" where
  "disconnectServer m serverId =
     (let m1 = (case map_of (clients m) serverId of
                  Some client \<Rightarrow> m\<lparr>clients := AList.delete serverId (clients m)\<rparr>
                | None \<Rightarrow> m)
      in case map_of (servers m1) serverId of
           Some server \<Rightarrow>
             m1\<lparr>servers := AList.update serverId (server\<lparr>isConnected := False\<rparr>) (servers m1)\<rparr>
         | None \<Rightarrow> m1)"

text \<open>
  \<^verbatim>\<open>searchCode(query, serverId?)\<close>. \<^verbatim>\<open>if (serverId)\<close> holds for a non-empty string. In
  the targeted branch nothing catches what the client throws, and nothing happens when
  there is no client; in the other branch every client is asked, in the order of the map,
  its hits are tagged with its id, and what it throws is logged and dropped.
\<close>

definition search_all :: "network \<Rightarrow> MCPManager \<Rightarrow> string \<Rightarrow> CodeSearchResult list" where
  "search_all net m query =
     concat (map (\<lambda>(id, client).
                    case client_searchCode net client query of
                      Inl err \<Rightarrow> []
                    | Inr serverResults \<Rightarrow> map (\<lambda>result. result\<lparr>hit_source := Some id\<rparr>) serverResults)
                 (clients m))"

definition searchCode ::
  "network \<Rightarrow> MCPManager \<Rightarrow> string \<Rightarrow> string option \<Rightarrow> js_error + CodeSearchResult list" where
  "searchCode net m query serverId =
     (case serverId of
        None \<Rightarrow> Inr (search_all net m query)
      | Some sid \<Rightarrow>
          if sid = [] then Inr (search_all net m query)
          else (case map_of (clients m) sid of
                  None \<Rightarrow> Inr []
                | Some client \<Rightarrow>
                    (case client_searchCode net client query of
                       Inl err \<Rightarrow> Inl err
                     | Inr serverResults \<Rightarrow> Inr ([] @ serverResults))))"

text \<open>The two sibling operations, which do throw when there is no client.\<close>

definition getFileContent :: "MCPManager \<Rightarrow> string \<Rightarrow> string \<Rightarrow> js_error + string" where
  "getFileContent m path serverId =
     (case map_of (clients m) serverId of
        None \<Rightarrow> Inl (Error (''Client '' @ serverId @ '' not connected''))
      | Some client \<Rightarrow> Inr [])"

definition listFiles :: "MCPManager \<Rightarrow> string \<Rightarrow> js_error + string list" where
  "listFiles m serverId =
     (case map_of (clients m) serverId of
        None \<Rightarrow> Inl (Error (''Client '' @ serverId @ '' not connected''))
      | Some client \<Rightarrow> Inr [])"

definition getConnectedServers :: "MCPManager \<Rightarrow> MCPServer list" where
  "getConnectedServers m = filter isConnected (map snd (servers m))"

definition getAllServers :: "MCPManager \<Rightarrow> MCPServer list" where
  "getAllServers m = map snd (servers m)"

section \<open>AIProviderManager.generateAnalysis\<close>

datatype AIProvider = OpenAI | Anthropic | Bedrock | Vertex

definition provider_name :: "AIProvider \<Rightarrow> string" where
  "provider_name p =
     (case p of OpenAI \<Rightarrow> ''openai'' | Anthropic \<Rightarrow> ''anthropic'' | Bedrock \<Rightarrow> ''bedrock''
      | Vertex \<Rightarrow> ''vertex'')"

text \<open>
  The completion service is outside the program: \<open>outcome\<close> is what \<^verbatim>\<open>generateText\<close>
  does on this call, the text it resolves to or the error it throws. The \<^verbatim>\<open>catch\<close> of
  \<^verbatim>\<open>generateAnalysis\<close> logs the error and throws a new one, so a failure of the service
  leaves this function as an exception.
\<close>

definition generateAnalysis :: "AIProvider \<Rightarrow> js_error + string \<Rightarrow> js_error + string" where
  "generateAnalysis provider outcome =
     (case outcome of
        Inl err \<Rightarrow> Inl (Error (''Failed to generate analysis with '' @ provider_name provider))
      | Inr text \<Rightarrow> Inr text)"

section \<open>AnalysisEngine: data\<close>

text \<open>
  The result types of \<^verbatim>\<open>types/index.ts\<close>. A field filled from parsed JSON holds whatever
  value the JSON had, since nothing checks its type.
\<close>

record SuggestedFix =
  fix_id :: string
  fix_description :: jsval
  fix_priority :: jsval
  fix_type :: jsval
  fix_code :: jsval
  fix_filePath :: jsval
  fix_explanation :: jsval

record UnitTest =
  test_id :: string
  test_description :: jsval
  test_framework :: jsval
  test_code :: jsval
  test_filePath :: jsval

record CodeAnalysis =
  affectedFiles :: "string list"
  potentialIssues :: "string list"
  dependencies :: "string list"
  mcpServerUsed :: "string list"

record AnalysisResult =
  rootCause :: jsval
  affectedComponents :: jsval
  suggestedFixes :: "SuggestedFix list"
  unitTests :: "UnitTest list"
  confidence :: jsval
  reasoning :: jsval
  codeAnalysis :: "CodeAnalysis option"

text \<open>\<^verbatim>\<open>AnalysisRequest\<close>: an omitted optional field is \<open>None\<close>.\<close>

record AnalysisRequest =
  userMessage :: string
  logs :: "ParsedLog option"
  includeFixes :: "bool option"
  includeTests :: "bool option"
  includeCodeAnalysis :: "bool option"

section \<open>AnalysisEngine.parseAIResponse\<close>

text \<open>
  \<^verbatim>\<open>response.match(/\{[\s\S]*\}/)\<close> and \<^verbatim>\<open>response.match(/\[[\s\S]*\]/)\<close>: the span from
  the first opening bracket to the last closing bracket after it.
\<close>

definition match_span :: "char \<Rightarrow> char \<Rightarrow> string \<Rightarrow> string option" where
  "match_span l r s =
     (case dropWhile (\<lambda>c. c \<noteq> l) s of
        [] \<Rightarrow> None
      | c # t \<Rightarrow> if r \<in> set t then Some (c # rev (dropWhile (\<lambda>x. x \<noteq> r) (rev t))) else None)"

definition parse_failed :: "string \<Rightarrow> AnalysisResult" where
  "parse_failed response =
     \<lparr>rootCause = JString ''Error analysis completed, but response parsing failed'',
      affectedComponents = JArray [], suggestedFixes = [], unitTests = [],
      confidence = JNumber (Fin (3 / 10)), reasoning = JString response,
      codeAnalysis = None\<rparr>"

text \<open>
  The \<^verbatim>\<open>try\<close> block covers the match, \<^verbatim>\<open>JSON.parse\<close> and the property reads; the
  \<^verbatim>\<open>catch\<close> block returns the fallback, so the function never throws.
\<close>

definition parseAIResponse :: "(string \<Rightarrow> jsval option) \<Rightarrow> string \<Rightarrow> AnalysisResult" where
  "parseAIResponse JSON_parse response =
     (case match_span CHR ''{'' CHR ''}'' response of
        None \<Rightarrow> parse_failed response
      | Some jsonMatch \<Rightarrow>
          (case JSON_parse jsonMatch of
             None \<Rightarrow> parse_failed response
           | Some parsed \<Rightarrow>
               (case get_prop parsed ''rootCause'' of
                  Inl err \<Rightarrow> parse_failed response
                | Inr rc \<Rightarrow>
                    \<lparr>rootCause = js_or rc (JString ''Unable to determine root cause''),
                     affectedComponents = js_or (own_prop parsed ''affectedComponents'') (JArray []),
                     suggestedFixes = [], unitTests = [],
                     confidence = js_or (own_prop parsed ''confidence'') (JNumber (Fin (1 / 2))),
                     reasoning = js_or (own_prop parsed ''reasoning'') (JString ''Analysis completed''),
                     codeAnalysis = None\<rparr>)))"

section \<open>AnalysisEngine.buildAnalysisPrompt\<close>

text \<open>
  The text of a prompt goes to the completion service and nowhere else, so the model keeps
  of each prompt only whether building it throws. \<^verbatim>\<open>toISOString\<close> throws a RangeError on
  the invalid date; a template literal and \<^verbatim>\<open>join\<close> throw the TypeError of ToString;
  \<^verbatim>\<open>extractErrorPatterns\<close> throws its own. The checks are in the order of the template.
\<close>

definition entry_text_throws :: "bool \<Rightarrow> LogEntry \<Rightarrow> bool" where
  "entry_text_throws with_stack e =
     (ToString_throws (timestamp e) \<or> ToString_throws (message e) \<or>
      (truthy (source e) \<and> ToString_throws (source e)) \<or>
      (with_stack \<and> truthy (stackTrace e) \<and> ToString_throws (stackTrace e)))"

definition buildAnalysisPrompt :: "string \<Rightarrow> ParsedLog option \<Rightarrow> js_error + unit" where
  "buildAnalysisPrompt message_text lg =
     (case lg of
        None \<Rightarrow> Inr ()
      | Some l \<Rightarrow>
          if entries l = [] then Inr ()
          else if timeRange_start l = InvalidDate \<or> timeRange_end l = InvalidDate
          then Inl RangeError
          else if list_ex ToString_throws (sources l) \<or>
                  list_ex (entry_text_throws True)
                    (take 10 (filter (\<lambda>entry. level entry = ''error'') (entries l))) \<or>
                  list_ex (entry_text_throws False)
                    (take 5 (filter (\<lambda>entry. level entry = ''warn'') (entries l)))
          then Inl TypeError
          else (case extractErrorPatterns (entries l) of
                  Inl err \<Rightarrow> Inl err
                | Inr patterns \<Rightarrow> Inr ()))"

section \<open>AnalysisEngine.performCodeAnalysis\<close>

text \<open>
  \<^verbatim>\<open>s.match(/\b\w{3,}\b/g) || []\<close>: the maximal runs of word characters that are at
  least three long, from left to right.
\<close>

fun word_runs :: "string \<Rightarrow> string \<Rightarrow> string list" where
  "word_runs cur [] = (if cur = [] then [] else [cur])"
| "word_runs cur (c # cs) =
     (if is_word c then word_runs (cur @ [c]) cs
      else (if cur = [] then [] else [cur]) @ word_runs [] cs)"

definition word_matches :: "string \<Rightarrow> string list" where
  "word_matches s = filter (\<lambda>w. 3 \<le> length w) (word_runs [] s)"

definition add_terms :: "string list \<Rightarrow> string list \<Rightarrow> string list \<Rightarrow> string list" where
  "add_terms stop_words ws terms =
     foldl (\<lambda>ts w. if w \<in> set stop_words then ts else Set_add w ts) terms ws"

text \<open>The \<^verbatim>\<open>forEach\<close> over the error entries; \<^verbatim>\<open>toLowerCase\<close> needs a string.\<close>

fun entry_terms :: "LogEntry list \<Rightarrow> string list \<Rightarrow> js_error + string list" where
  "entry_terms [] terms = Inr terms"
| "entry_terms (entry # rest) terms =
     (case message entry of
        JString s \<Rightarrow>
          entry_terms rest
            (add_terms [''the'', ''and'', ''or'', ''but'', ''error'', ''failed'']
               (word_matches (toLowerCase s)) terms)
      | _ \<Rightarrow> Inl TypeError)"

definition extractSearchTerms :: "ParsedLog \<Rightarrow> jsval \<Rightarrow> js_error + string list" where
  "extractSearchTerms l root_cause =
     (case root_cause of
        JString rc \<Rightarrow>
          (case entry_terms (take 5 (filter (\<lambda>entry. level entry = ''error'') (entries l)))
                  (add_terms [''the'', ''and'', ''or'', ''but'', ''error'', ''issue'']
                     (word_matches (toLowerCase rc)) [])
           of Inl err \<Rightarrow> Inl err
            | Inr terms \<Rightarrow> Inr (take 10 terms))
      | _ \<Rightarrow> Inl TypeError)"

text \<open>\<^verbatim>\<open>results.forEach\<close>: a non-empty path not yet listed is appended.\<close>

definition add_paths :: "CodeSearchResult list \<Rightarrow> string list \<Rightarrow> string list" where
  "add_paths results files =
     foldl (\<lambda>fs result. if hit_path result \<noteq> [] \<and> hit_path result \<notin> set fs
                          then fs @ [hit_path result] else fs)
       files results"

text \<open>
  The inner loop over the search terms for one server. The flag tells whether a search
  threw, which ends the loop; the paths pushed before that stay.
\<close>

fun search_terms ::
  "network \<Rightarrow> MCPManager \<Rightarrow> string \<Rightarrow> string list \<Rightarrow> string list \<Rightarrow> bool \<times> string list" where
  "search_terms net m sid [] files = (False, files)"
| "search_terms net m sid (term # terms) files =
     (case searchCode net m term (Some sid) of
        Inl err \<Rightarrow> (True, files)
      | Inr results \<Rightarrow> search_terms net m sid terms (add_paths results files))"

text \<open>The outer loop over the connected servers, with its \<^verbatim>\<open>try\<close> and \<^verbatim>\<open>catch\<close>.\<close>

fun search_servers ::
  "network \<Rightarrow> MCPManager \<Rightarrow> string list \<Rightarrow> MCPServer list \<Rightarrow>
   string list \<times> string list \<times> string list \<Rightarrow> string list \<times> string list \<times> string list" where
  "search_servers net m terms [] acc = acc"
| "search_servers net m terms (server # rest) (files, issues, used) =
     (case search_terms net m (server_id server) terms files of
        (threw, files') \<Rightarrow>
          search_servers net m terms rest
            (files',
             if threw then issues @ [''Failed to analyze code in '' @ server_name server]
             else issues,
             used @ [server_name server]))"

definition performCodeAnalysis ::
  "network \<Rightarrow> MCPManager \<Rightarrow> ParsedLog \<Rightarrow> jsval \<Rightarrow> js_error + CodeAnalysis" where
  "performCodeAnalysis net m l root_cause =
     (let connectedServers = getConnectedServers m in
      if connectedServers = []
      then Inr \<lparr>affectedFiles = [],
                potentialIssues = [''No MCP servers connected for code analysis''],
                dependencies = [], mcpServerUsed = []\<rparr>
      else (case extractSearchTerms l root_cause of
              Inl err \<Rightarrow> Inl err
            | Inr searchTerms \<Rightarrow>
                (case search_servers net m searchTerms connectedServers ([], [], []) of
                   (files, issues, used) \<Rightarrow>
                     Inr \<lparr>affectedFiles = take 20 files, potentialIssues = issues,
                          dependencies = [], mcpServerUsed = used\<rparr>)))"

section \<open>AnalysisEngine.generateFixes\<close>

function string_of_nat :: "nat \<Rightarrow> string" where
  "string_of_nat n =
     (if n < 10 then [char_of (48 + n)]
      else string_of_nat (n div 10) @ [char_of (48 + n mod 10)])"
  by pat_completeness auto
termination
  by (relation "measure id") auto

declare string_of_nat.simps [simp del]

text \<open>The prompt is built before the \<^verbatim>\<open>try\<close>, so what it throws leaves the function.\<close>

definition buildFixPrompt :: "jsval \<Rightarrow> ParsedLog option \<Rightarrow> js_error + unit" where
  "buildFixPrompt root_cause lg =
     (if ToString_throws root_cause then Inl TypeError
      else (case lg of
              None \<Rightarrow> Inr ()
            | Some l \<Rightarrow>
                (case extractErrorPatterns (entries l) of
                   Inl err \<Rightarrow> Inl err
                 | Inr patterns \<Rightarrow> Inr ())))"

definition fallback_fixes :: "SuggestedFix list" where
  "fallback_fixes =
     [\<lparr>fix_id = ''fix-1'', fix_description = JString ''Add error handling and retry logic'',
       fix_priority = JString ''high'', fix_type = JString ''code'', fix_code = JUndefined,
       fix_filePath = JUndefined,
       fix_explanation = JString
         ''Implement proper error handling to gracefully handle failures and prevent cascading issues''\<rparr>]"

text \<open>The callback of \<^verbatim>\<open>fixes.map\<close>; reading a property of a \<^verbatim>\<open>null\<close> element throws.\<close>

definition normalize_fix :: "jsval \<Rightarrow> nat \<Rightarrow> js_error + SuggestedFix" where
  "normalize_fix fix index =
     (case get_prop fix ''description'' of
        Inl err \<Rightarrow> Inl err
      | Inr d \<Rightarrow>
          Inr \<lparr>fix_id = ''fix-'' @ string_of_nat index,
               fix_description = js_or d (JString ''Generated fix''),
               fix_priority = js_or (own_prop fix ''priority'') (JString ''medium''),
               fix_type = js_or (own_prop fix ''type'') (JString ''code''),
               fix_code = own_prop fix ''code'',
               fix_filePath = own_prop fix ''filePath'',
               fix_explanation = js_or (own_prop fix ''explanation'')
                                   (JString ''Generated fix explanation'')\<rparr>)"

fun map_fixes :: "jsval list \<Rightarrow> nat \<Rightarrow> js_error + SuggestedFix list" where
  "map_fixes [] index = Inr []"
| "map_fixes (fix # rest) index =
     (case normalize_fix fix index of
        Inl err \<Rightarrow> Inl err
      | Inr f \<Rightarrow> (case map_fixes rest (index + 1) of Inl err \<Rightarrow> Inl err | Inr fs \<Rightarrow> Inr (f # fs)))"

text \<open>
  \<open>outcome\<close> is what the completion service does on the one call made here. Inside the
  \<^verbatim>\<open>try\<close>: the call, the match, \<^verbatim>\<open>JSON.parse\<close> and \<^verbatim>\<open>fixes.map\<close>, which is not a
  function unless the parsed value is an array. Every exception there, and a response
  without a bracketed span, end at the fallback list.
\<close>

definition generateFixes ::
  "(string \<Rightarrow> jsval option) \<Rightarrow> AIProvider \<Rightarrow> js_error + string \<Rightarrow> jsval \<Rightarrow> ParsedLog option \<Rightarrow>
   js_error + SuggestedFix list" where
  "generateFixes JSON_parse provider outcome root_cause lg =
     (case buildFixPrompt root_cause lg of
        Inl err \<Rightarrow> Inl err
      | Inr u \<Rightarrow>
          (case generateAnalysis provider outcome of
             Inl err \<Rightarrow> Inr fallback_fixes
           | Inr response \<Rightarrow>
               (case match_span CHR ''['' CHR '']'' response of
                  None \<Rightarrow> Inr fallback_fixes
                | Some jsonMatch \<Rightarrow>
                    (case JSON_parse jsonMatch of
                       Some (JArray fixes) \<Rightarrow>
                         (case map_fixes fixes 0 of
                            Inl err \<Rightarrow> Inr fallback_fixes
                          | Inr fs \<Rightarrow> Inr fs)
                     | _ \<Rightarrow> Inr fallback_fixes))))"

section \<open>AnalysisEngine.generateUnitTests\<close>

text \<open>
  The text that ToString gives for a value on which it does not throw. The rendering of
  a number (\<^verbatim>\<open>Number.prototype.toString\<close>) is a parameter.
\<close>

fun join_with :: "string \<Rightarrow> string list \<Rightarrow> string" where
  "join_with sep [] = []"
| "join_with sep [x] = x"
| "join_with sep (x # y # ys) = x @ sep @ join_with sep (y # ys)"

fun ToString_text :: "(jsnum \<Rightarrow> string) \<Rightarrow> jsval \<Rightarrow> string" where
  "ToString_text Number_toString JUndefined = ''undefined''"
| "ToString_text Number_toString JNull = ''null''"
| "ToString_text Number_toString (JBool b) = (if b then ''true'' else ''false'')"
| "ToString_text Number_toString (JNumber n) = Number_toString n"
| "ToString_text Number_toString (JString s) = s"
| "ToString_text Number_toString (JArray xs) =
     join_with '',''
       (map (\<lambda>x. if x = JUndefined \<or> x = JNull then [] else ToString_text Number_toString x) xs)"
| "ToString_text Number_toString (JObject kvs) = ''[object Object]''"

text \<open>\<^verbatim>\<open>s.replace(/\.ts$/, '.test.ts')\<close>\<close>

definition replace_ts_suffix :: "string \<Rightarrow> string" where
  "replace_ts_suffix s = (if suffix ''.ts'' s then take (length s - 3) s @ ''.test.ts'' else s)"

text \<open>
  The object pushed onto \<^verbatim>\<open>tests\<close>, its fields evaluated in order. \<^verbatim>\<open>replace\<close> is only
  reached when the parsed test has no file path, and is not a function unless the
  file path of the fix is a string.
\<close>

definition make_test :: "(jsnum \<Rightarrow> string) \<Rightarrow> SuggestedFix \<Rightarrow> jsval \<Rightarrow> js_error + UnitTest" where
  "make_test Number_toString fix test =
     (case get_prop test ''description'' of
        Inl err \<Rightarrow> Inl err
      | Inr d \<Rightarrow>
          if \<not> truthy d \<and> ToString_throws (fix_description fix) then Inl TypeError
          else (case (if truthy (own_prop test ''filePath'') then Inr (own_prop test ''filePath'')
                      else (case fix_filePath fix of
                              JString p \<Rightarrow> Inr (JString (replace_ts_suffix p))
                            | _ \<Rightarrow> Inl TypeError))
                of Inl err \<Rightarrow> Inl err
                 | Inr fp \<Rightarrow>
                     Inr \<lparr>test_id = ''test-'' @ fix_id fix,
                          test_description =
                            (if truthy d then d
                             else JString (''Test for '' @
                                    ToString_text Number_toString (fix_description fix))),
                          test_framework = js_or (own_prop test ''framework'') (JString ''jest''),
                          test_code = js_or (own_prop test ''code'')
                                        (JString ''// Test code generation failed''),
                          test_filePath = fp\<rparr>))"

text \<open>
  The body of the \<^verbatim>\<open>try\<close> for one fix, after the call: \<open>None\<close> when nothing is pushed,
  because the response has no braced span or because something in the block threw.
\<close>

definition test_of_response ::
  "(string \<Rightarrow> jsval option) \<Rightarrow> (jsnum \<Rightarrow> string) \<Rightarrow> SuggestedFix \<Rightarrow> string \<Rightarrow> UnitTest option" where
  "test_of_response JSON_parse Number_toString fix response =
     (case match_span CHR ''{'' CHR ''}'' response of
        None \<Rightarrow> None
      | Some jsonMatch \<Rightarrow>
          (case JSON_parse jsonMatch of
             None \<Rightarrow> None
           | Some test \<Rightarrow>
               (case make_test Number_toString fix test of Inl err \<Rightarrow> None | Inr t \<Rightarrow> Some t)))"

text \<open>
  The loop over the fixes. The completion service is called once per fix that has both
  code and a file path; \<open>oracle k\<close> is what the service does on the call number \<open>k\<close> of the
  analysis, and \<open>n\<close> counts the calls made so far. The prompt is built before the
  \<^verbatim>\<open>try\<close>.
\<close>

fun tests_loop ::
  "(string \<Rightarrow> jsval option) \<Rightarrow> (jsnum \<Rightarrow> string) \<Rightarrow> AIProvider \<Rightarrow> (nat \<Rightarrow> js_error + string) \<Rightarrow>
   nat \<Rightarrow> SuggestedFix list \<Rightarrow> UnitTest list \<Rightarrow> js_error + UnitTest list" where
  "tests_loop JSON_parse Number_toString provider oracle n [] tests = Inr tests"
| "tests_loop JSON_parse Number_toString provider oracle n (fix # rest) tests =
     (if truthy (fix_code fix) \<and> truthy (fix_filePath fix)
      then if ToString_throws (fix_description fix) \<or> ToString_throws (fix_filePath fix) \<or>
              ToString_throws (fix_code fix)
           then Inl TypeError
           else (case generateAnalysis provider (oracle n) of
                   Inl err \<Rightarrow> tests_loop JSON_parse Number_toString provider oracle (n + 1) rest tests
                 | Inr response \<Rightarrow>
                     (case test_of_response JSON_parse Number_toString fix response of
                        None \<Rightarrow>
                          tests_loop JSON_parse Number_toString provider oracle (n + 1) rest tests
                      | Some t \<Rightarrow>
                          tests_loop JSON_parse Number_toString provider oracle (n + 1) rest
                            (tests @ [t])))
      else tests_loop JSON_parse Number_toString provider oracle n rest tests)"

definition generateUnitTests ::
  "(string \<Rightarrow> jsval option) \<Rightarrow> (jsnum \<Rightarrow> string) \<Rightarrow> AIProvider \<Rightarrow> (nat \<Rightarrow> js_error + string) \<Rightarrow>
   nat \<Rightarrow> SuggestedFix list \<Rightarrow> js_error + UnitTest list" where
  "generateUnitTests JSON_parse Number_toString provider oracle n fixes =
     tests_loop JSON_parse Number_toString provider oracle n (take 3 fixes) []"

section \<open>AnalysisEngine.analyze\<close>

text \<open>The destructuring default \<^verbatim>\<open>= true\<close> of the three flags.\<close>

definition flag_default :: "bool option \<Rightarrow> bool" where
  "flag_default b = (case b of None \<Rightarrow> True | Some v \<Rightarrow> v)"

text \<open>
  The phases run in sequence and nothing in \<^verbatim>\<open>analyze\<close> catches an exception, so the
  first one that a phase lets out is the outcome of the whole call. The completion
  service is called first for the verdict (call 0), then for the fixes, then for the tests.
\<close>

definition analyze ::
  "(string \<Rightarrow> jsval option) \<Rightarrow> (jsnum \<Rightarrow> string) \<Rightarrow> AIProvider \<Rightarrow> (nat \<Rightarrow> js_error + string) \<Rightarrow>
   network \<Rightarrow> MCPManager \<Rightarrow> AnalysisRequest \<Rightarrow> js_error + AnalysisResult" where
  "analyze JSON_parse Number_toString provider oracle net m request =
     (let use_fixes = flag_default (includeFixes request);
          use_tests = flag_default (includeTests request);
          use_code = flag_default (includeCodeAnalysis request)
      in
      (case buildAnalysisPrompt (userMessage request) (logs request) of
        Inl err \<Rightarrow> Inl err
      | Inr prompt \<Rightarrow>
      (case generateAnalysis provider (oracle 0) of
        Inl err \<Rightarrow> Inl err
      | Inr aiResponse \<Rightarrow>
      (case (case logs request of
               None \<Rightarrow> Inr (parseAIResponse JSON_parse aiResponse)
             | Some l \<Rightarrow>
                 if use_code
                 then (case performCodeAnalysis net m l
                              (rootCause (parseAIResponse JSON_parse aiResponse)) of
                         Inl err \<Rightarrow> Inl err
                       | Inr ca \<Rightarrow>
                           Inr ((parseAIResponse JSON_parse aiResponse)\<lparr>codeAnalysis := Some ca\<rparr>))
                 else Inr (parseAIResponse JSON_parse aiResponse))
       of
        Inl err \<Rightarrow> Inl err
      | Inr r1 \<Rightarrow>
      (case (if use_fixes
             then (case generateFixes JSON_parse provider (oracle 1) (rootCause r1)
                          (logs request) of
                     Inl err \<Rightarrow> Inl err
                   | Inr fixes \<Rightarrow> Inr (r1\<lparr>suggestedFixes := fixes\<rparr>))
             else Inr r1)
       of
        Inl err \<Rightarrow> Inl err
      | Inr r2 \<Rightarrow>
          if use_tests \<and> suggestedFixes r2 \<noteq> []
          then (case generateUnitTests JSON_parse Number_toString provider oracle
                       (if use_fixes then 2 else 1) (suggestedFixes r2) of
                  Inl err \<Rightarrow> Inl err
                | Inr tests \<Rightarrow> Inr (r2\<lparr>unitTests := tests\<rparr>))
          else Inr r2)))))"

section \<open>Notions used in the statements\<close>

text \<open>The tags whose keyword occurs in a lower-cased message.\<close>

definition tags_of :: "(string list \<times> string) list \<Rightarrow> string \<Rightarrow> string set" where
  "tags_of tbl m = {tag. \<exists>ks. (ks, tag) \<in> set tbl \<and> list_ex (str_includes m) ks}"

text \<open>\<open>k\<close> occurs in \<open>s\<close>: some characters, then \<open>k\<close>, then some characters.\<close>

definition occurs_in :: "string \<Rightarrow> string \<Rightarrow> bool" where
  "occurs_in k s = (\<exists>p q. s = p @ k @ q)"

text \<open>The tags that one entry contributes: none unless its message is a string.\<close>

definition entry_tags :: "LogEntry \<Rightarrow> string set" where
  "entry_tags e =
     (case message e of JString s \<Rightarrow> tags_of pattern_table (toLowerCase s) | _ \<Rightarrow> {})"

text \<open>
  What test generation is expected to return. A fix needs a test when it has code and a
  file path. The fixes that need one are taken from the first three of the list, and the
  \<open>i\<close>-th of them gets the call number \<open>n + i\<close> of the completion service: when that call
  fails there is no test for this fix, when it answers the test is the one read from the
  answer, if one can be read. The other fixes are handled all the same.
\<close>

definition needs_test :: "SuggestedFix \<Rightarrow> bool" where
  "needs_test fx = (truthy (fix_code fx) \<and> truthy (fix_filePath fx))"

definition tests_of_call ::
  "(string \<Rightarrow> jsval option) \<Rightarrow> (jsnum \<Rightarrow> string) \<Rightarrow> (nat \<Rightarrow> js_error + string) \<Rightarrow>
   nat \<times> SuggestedFix \<Rightarrow> UnitTest list" where
  "tests_of_call JSON_parse Number_toString oracle call =
     (case oracle (fst call) of
        Inl err \<Rightarrow> []
      | Inr response \<Rightarrow>
          (case test_of_response JSON_parse Number_toString (snd call) response of
             None \<Rightarrow> []
           | Some t \<Rightarrow> [t]))"

definition expected_tests ::
  "(string \<Rightarrow> jsval option) \<Rightarrow> (jsnum \<Rightarrow> string) \<Rightarrow> (nat \<Rightarrow> js_error + string) \<Rightarrow> nat \<Rightarrow>
   SuggestedFix list \<Rightarrow> UnitTest list" where
  "expected_tests JSON_parse Number_toString oracle n fs =
     concat (map (tests_of_call JSON_parse Number_toString oracle)
               (enumerate n (filter needs_test (take 3 fs))))"

text \<open>Building the prompt that asks for the test of a fix throws.\<close>

definition test_prompt_throws :: "SuggestedFix \<Rightarrow> bool" where
  "test_prompt_throws fx =
     (ToString_throws (fix_description fx) \<or> ToString_throws (fix_filePath fx) \<or>
      ToString_throws (fix_code fx))"


text \<open>
  The value that \<^verbatim>\<open>parsed.k || d\<close> takes on an object with the own properties \<open>kvs\<close>:
  the property when it is there and truthy, the default otherwise.
\<close>

definition field_or_default :: "(string \<times> jsval) list \<Rightarrow> string \<Rightarrow> jsval \<Rightarrow> jsval" where
  "field_or_default kvs k d =
     (case map_of kvs k of None \<Rightarrow> d | Some v \<Rightarrow> if truthy v then v else d)"

text \<open>
  The connection flag of every registered server agrees with the presence of a live client
  under its id.
\<close>

definition consistent :: "MCPManager \<Rightarrow> bool" where
  "consistent m =
     (\<forall>sid server. map_of (servers m) sid = Some server \<longrightarrow>
        isConnected server = (map_of (clients m) sid \<noteq> None))"

text \<open>
  The word in the level position of a line, for each of the four patterns. In the
  bracketed style: \<open>[\<close>, a timestamp without \<open>]\<close>, \<open>]\<close>, blanks, the word, a colon. In the
  first web-server style: 19 characters, a blank, \<open>[\<close>, the word, \<open>]\<close>, a blank. In the second:
  \<open>[\<close>, a timestamp without \<open>]\<close>, \<open>]\<close>, a blank, \<open>[\<close>, the word, \<open>]\<close>, a blank. In the ISO
  style: a timestamp of at least 19 characters with no blank after the 19th, blanks, the
  word, and a blank after it.
\<close>

definition standard_level_word :: "string \<Rightarrow> string \<Rightarrow> bool" where
  "standard_level_word line lv =
     (\<exists>ts sp rest. line = ''['' @ ts @ '']'' @ sp @ lv @ '':'' @ rest \<and>
        ts \<noteq> [] \<and> list_all (\<lambda>c. c \<noteq> CHR '']'') ts \<and>
        sp \<noteq> [] \<and> list_all is_space sp \<and> lv \<noteq> [] \<and> list_all is_word lv)"

definition nginx_level_word :: "string \<Rightarrow> string \<Rightarrow> bool" where
  "nginx_level_word line lv =
     (\<exists>ts rest. line = ts @ '' ['' @ lv @ ''] '' @ rest \<and> length ts = 19 \<and>
        lv \<noteq> [] \<and> list_all is_word lv)"

definition apache_level_word :: "string \<Rightarrow> string \<Rightarrow> bool" where
  "apache_level_word line lv =
     (\<exists>ts rest. line = ''['' @ ts @ ''] ['' @ lv @ ''] '' @ rest \<and>
        ts \<noteq> [] \<and> list_all (\<lambda>c. c \<noteq> CHR '']'') ts \<and> lv \<noteq> [] \<and> list_all is_word lv)"

definition application_level_word :: "string \<Rightarrow> string \<Rightarrow> bool" where
  "application_level_word line lv =
     (\<exists>ts sp rest. line = ts @ sp @ lv @ rest \<and>
        19 \<le> length ts \<and> list_all (\<lambda>c. \<not> is_space c) (drop 19 ts) \<and>
        sp \<noteq> [] \<and> list_all is_space sp \<and> lv \<noteq> [] \<and> list_all is_word lv \<and>
        rest \<noteq> [] \<and> is_space (hd rest))"

text \<open>The white space of the JSON grammar: tab, line feed, carriage return, space.\<close>

definition is_json_ws :: "char \<Rightarrow> bool" where
  "is_json_ws c = (let n = (of_char c :: nat) in n = 9 \<or> n = 10 \<or> n = 13 \<or> n = 32)"

section \<open>The built-ins at the inputs of the examples\<close>

text \<open>
  The theorems below hold for every \<^verbatim>\<open>JSON.parse\<close>, \<^verbatim>\<open>Date\<close> and network. The examples
  need their values at a few concrete inputs. \<open>JSON_parse_sample\<close> gives the value of
  \<^verbatim>\<open>JSON.parse\<close> at the JSON texts listed; every other text that an example passes to it
  is not JSON.
\<close>

definition JSON_parse_sample :: "string \<Rightarrow> jsval option" where
  \<open>JSON_parse_sample s =
     (if s = ''{"rootCause": 5, "confidence": 0}''
      then Some (JObject [(''rootCause'', JNumber (Fin 5)), (''confidence'', JNumber (Fin 0))])
      else if s = ''{"rootCause": "pool exhausted", "confidence": 0.9}''
      then Some (JObject [(''rootCause'', JString ''pool exhausted''),
                          (''confidence'', JNumber (Fin (9 / 10)))])
      else if s = ''{"level": 5}''
      then Some (JObject [(''level'', JNumber (Fin 5))])
      else if s = ''{"level": "ERROR", "msg": "disk full"}''
      then Some (JObject [(''level'', JString ''ERROR''), (''msg'', JString ''disk full'')])
      else if s = ''[]''
      then Some (JArray [])
      else if s = ''[{"description": "Add a retry", "priority": "high"}]''
      then Some (JArray [JObject [(''description'', JString ''Add a retry''),
                                  (''priority'', JString ''high'')]])
      else if s = ''[{"description": "Add a retry", "code": "retry(3)", "filePath": "src/db.ts"}, {"description": "Page the on-call"}, {"description": "Raise the pool size", "code": "pool.max = 20", "filePath": "src/pool.ts"}]''
      then Some (JArray [JObject [(''description'', JString ''Add a retry''),
                                  (''code'', JString ''retry(3)''),
                                  (''filePath'', JString ''src/db.ts'')],
                         JObject [(''description'', JString ''Page the on-call'')],
                         JObject [(''description'', JString ''Raise the pool size''),
                                  (''code'', JString ''pool.max = 20''),
                                  (''filePath'', JString ''src/pool.ts'')]])
      else if s = ''{"description": "pool size is raised", "code": "expect(pool.max).toBe(20)"}''
      then Some (JObject [(''description'', JString ''pool size is raised''),
                          (''code'', JString ''expect(pool.max).toBe(20)'')])
      else None)\<close>

text \<open>
  \<^verbatim>\<open>new Date(v)\<close> at the timestamps of the examples; every other argument that an
  example passes to it is a string that is not a date.
\<close>

definition Date_new_sample :: "jsval \<Rightarrow> js_error + jsdate" where
  "Date_new_sample v =
     (if v = JString ''2024-06-14T12:00:00Z'' then Inr (TimeValue 1718366400000)
      else if v = JString ''2024-06-14T12:00:05Z'' then Inr (TimeValue 1718366405000)
      else if v = JString ''2024-06-14T12:00:10Z'' then Inr (TimeValue 1718366410000)
      else if v = JString ''2024-06-16T12:00:00Z'' then Inr (TimeValue 1718539200000)
      else if v = JString ''2024-06-17T12:00:00Z'' then Inr (TimeValue 1718625600000)
      else Inr InvalidDate)"

text \<open>A network on which every request fails, and a completion service that is down.\<close>

definition network_down :: network where
  "network_down =
     \<lparr>handshake_ok = (\<lambda>client. False),
      github_search = (\<lambda>query. Inl (Error ''GitHub code search failed''))\<rparr>"

definition oracle_down :: "nat \<Rightarrow> js_error + string" where
  "oracle_down k = Inl (Error ''429 Too Many Requests'')"

text \<open>\<^verbatim>\<open>Number.prototype.toString\<close> on the integers; no example renders another number.\<close>

definition Number_toString_sample :: "jsnum \<Rightarrow> string" where
  "Number_toString_sample n =
     (case n of
        Fin r \<Rightarrow> (if r < 0 then ''-'' else []) @ string_of_nat (nat \<lfloor>abs r\<rfloor>)
      | PosInfinity \<Rightarrow> ''Infinity''
      | NegInfinity \<Rightarrow> ''-Infinity''
      | NaN \<Rightarrow> ''NaN'')"

text \<open>
  A completion service that answers the verdict request and then fails, and one that also
  answers the request for fixes.
\<close>

definition oracle_verdict_only :: "nat \<Rightarrow> js_error + string" where
  \<open>oracle_verdict_only k =
     (if k = 0 then Inr ''Verdict: {"rootCause": "pool exhausted", "confidence": 0.9}''
      else Inl (Error ''429 Too Many Requests''))\<close>

definition oracle_verdict_and_fixes :: "nat \<Rightarrow> js_error + string" where
  \<open>oracle_verdict_and_fixes k =
     (if k = 0 then Inr ''Verdict: {"rootCause": "pool exhausted", "confidence": 0.9}''
      else if k = 1 then Inr ''Fixes: [{"description": "Add a retry", "priority": "high"}]''
      else Inl (Error ''429 Too Many Requests''))\<close>

text \<open>
  A completion service that answers the verdict request, proposes three fixes, of which
  the first and the third have code and a file path, fails on the request for the test of
  the first and answers the request for the test of the third.
\<close>

definition oracle_tests_mixed :: "nat \<Rightarrow> js_error + string" where
  \<open>oracle_tests_mixed k =
     (if k = 0 then Inr ''Verdict: {"rootCause": "pool exhausted", "confidence": 0.9}''
      else if k = 1
      then Inr ''Fixes: [{"description": "Add a retry", "code": "retry(3)", "filePath": "src/db.ts"}, {"description": "Page the on-call"}, {"description": "Raise the pool size", "code": "pool.max = 20", "filePath": "src/pool.ts"}]''
      else if k = 2 then Inl (Error ''429 Too Many Requests'')
      else if k = 3
      then Inr ''Test: {"description": "pool size is raised", "code": "expect(pool.max).toBe(20)"}''
      else Inl (Error ''429 Too Many Requests''))\<close>

text \<open>
  A network on which the handshake succeeds and the GitHub code search finds one file for
  the query \<open>pool\<close>; the manager after connecting the GitHub server on it; the batch that
  \<^verbatim>\<open>parseLogFiles\<close> returns.
\<close>

definition network_up :: network where
  "network_up =
     \<lparr>handshake_ok = (\<lambda>client. True),
      github_search =
        (\<lambda>query. if query = ''pool''
                  then Inr [\<lparr>hit_path = ''src/pool.ts'',
                             hit_content = ''export const pool = createPool()'',
                             hit_repository = Some ''acme/shop'', hit_line = Some 12,
                             hit_source = None\<rparr>]
                  else Inr [])\<rparr>"

definition manager_github :: MCPManager where
  "manager_github =
     (case connectServer network_up (initializeDefaultServers (\<lambda>k. None)) ''github'' of
        Inr (ok, m) \<Rightarrow> m
      | Inl err \<Rightarrow> initializeDefaultServers (\<lambda>k. None))"

definition sample_log :: ParsedLog where
  "sample_log =
     \<lparr>entries = generateSampleEntries, totalEntries = 3, errorCount = 2, warnCount = 1,
      timeRange_start = TimeValue 1718366400000, timeRange_end = TimeValue 1718366410000,
      sources = [JString ''database'', JString ''api'', JString ''system'']\<rparr>"

definition narrative_request :: AnalysisRequest where
  "narrative_request =
     \<lparr>userMessage = ''users getting 500 errors'', logs = None, includeFixes = None,
      includeTests = None, includeCodeAnalysis = None\<rparr>"

section \<open>Facts about the string and set helpers\<close>

lemma str_includes_iff: "str_includes s k \<longleftrightarrow> (\<exists>p q. s = p @ k @ q)"
proof (induction s)
  case Nil
  then show ?case by auto
next
  case (Cons c cs)
  show ?case
  proof
    assume "str_includes (c # cs) k"
    then consider "prefix k (c # cs)" | "str_includes cs k" by auto
    then show "\<exists>p q. c # cs = p @ k @ q"
    proof cases
      case 1
      then obtain q where "c # cs = k @ q" by (auto simp: prefix_def)
      then have "c # cs = [] @ k @ q" by simp
      then show ?thesis by blast
    next
      case 2
      with Cons.IH obtain p q where "cs = p @ k @ q" by blast
      then have "c # cs = (c # p) @ k @ q" by simp
      then show ?thesis by blast
    qed
  next
    assume "\<exists>p q. c # cs = p @ k @ q"
    then obtain p q where pq: "c # cs = p @ k @ q" by blast
    show "str_includes (c # cs) k"
    proof (cases p)
      case Nil
      with pq have "prefix k (c # cs)" by (simp add: prefix_def)
      then show ?thesis by simp
    next
      case (Cons a p')
      with pq have "cs = p' @ k @ q" by simp
      with Cons.IH have "str_includes cs k" by blast
      then show ?thesis by simp
    qed
  qed
qed

lemma str_includes_part:
  assumes "str_includes s (a @ b @ c)"
  shows "str_includes s b"
proof -
  from assms obtain p q where "s = p @ (a @ b @ c) @ q"
    unfolding str_includes_iff by blast
  then have "s = (p @ a) @ b @ (c @ q)" by simp
  then show ?thesis unfolding str_includes_iff by blast
qed

lemma set_Set_add: "set (Set_add x xs) = insert x (set xs)"
  by (auto simp: Set_add_def)

lemma distinct_Set_add: "distinct xs \<Longrightarrow> distinct (Set_add x xs)"
  by (simp add: Set_add_def)

lemma foldl_tags_set:
  "set (foldl (\<lambda>ps (ks, tag). if list_ex (str_includes m) ks then Set_add tag ps else ps) ps tbl)
     = set ps \<union> tags_of tbl m"
  by (induction tbl arbitrary: ps) (auto simp: set_Set_add tags_of_def)

lemma foldl_tags_distinct:
  "distinct ps \<Longrightarrow>
   distinct (foldl (\<lambda>ps (ks, tag). if list_ex (str_includes m) ks then Set_add tag ps else ps) ps tbl)"
  by (induction tbl arbitrary: ps) (auto simp: distinct_Set_add)

lemma set_scan_message: "set (scan_message m ps) = set ps \<union> tags_of pattern_table m"
  by (simp add: scan_message_def foldl_tags_set)

lemma distinct_scan_message: "distinct ps \<Longrightarrow> distinct (scan_message m ps)"
  by (simp add: scan_message_def foldl_tags_distinct)

lemma entry_tags_iff:
  "tag \<in> entry_tags e \<longleftrightarrow>
     (\<exists>s ks k. message e = JString s \<and> (ks, tag) \<in> set pattern_table \<and> k \<in> set ks \<and>
        str_includes (toLowerCase s) k)"
  by (cases "message e") (auto simp: entry_tags_def tags_of_def list_ex_iff)

lemma scan_entries_strings:
  "\<forall>e \<in> set es. \<exists>s. message e = JString s \<Longrightarrow>
   \<exists>ps'. scan_entries es ps = Inr ps' \<and> set ps' = set ps \<union> (\<Union>e \<in> set es. entry_tags e) \<and>
     (distinct ps \<longrightarrow> distinct ps')"
proof (induction es arbitrary: ps)
  case Nil
  then show ?case by simp
next
  case (Cons e es)
  then obtain s where s: "message e = JString s" by auto
  from Cons.prems have "\<forall>e \<in> set es. \<exists>s. message e = JString s" by simp
  from Cons.IH [OF this, of "scan_message (toLowerCase s) ps"]
  obtain ps' where "scan_entries es (scan_message (toLowerCase s) ps) = Inr ps'"
    "set ps' = set (scan_message (toLowerCase s) ps) \<union> (\<Union>e \<in> set es. entry_tags e)"
    "distinct (scan_message (toLowerCase s) ps) \<longrightarrow> distinct ps'" by blast
  then show ?case using s
    by (auto simp: set_scan_message distinct_scan_message entry_tags_def)
qed

lemma str_includes_occurs: "str_includes s k = occurs_in k s"
  by (simp add: str_includes_iff occurs_in_def)

lemma tags_of_Nil: "tag \<in> tags_of [] m \<longleftrightarrow> False"
  by (simp add: tags_of_def)

lemma tags_of_Cons:
  "tag \<in> tags_of ((ks, t) # tbl) m \<longleftrightarrow>
     tag = t \<and> list_ex (\<lambda>k. occurs_in k m) ks \<or> tag \<in> tags_of tbl m"
  unfolding tags_of_def str_includes_occurs by auto

lemma tags_of_pattern_table:
  "tag \<in> tags_of pattern_table m \<longleftrightarrow>
     tag = ''connection_errors'' \<and> occurs_in ''connection'' m \<or>
     tag = ''timeout_errors'' \<and> occurs_in ''timeout'' m \<or>
     tag = ''not_found_errors'' \<and> occurs_in ''not found'' m \<or>
     tag = ''auth_errors'' \<and> (occurs_in ''permission'' m \<or> occurs_in ''unauthorized'' m) \<or>
     tag = ''memory_errors'' \<and> (occurs_in ''memory'' m \<or> occurs_in ''out of memory'' m) \<or>
     tag = ''disk_errors'' \<and> (occurs_in ''disk'' m \<or> occurs_in ''space'' m) \<or>
     tag = ''network_errors'' \<and> occurs_in ''network'' m"
  unfolding pattern_table_def
  by (simp only: tags_of_Cons tags_of_Nil list_ex_Nil_iff list_ex_Cons_iff simp_thms)

lemma of_char_lower_char:
  "(of_char (lower_char c) :: nat) =
     (if 65 \<le> (of_char c :: nat) \<and> (of_char c :: nat) \<le> 90 \<or>
         192 \<le> (of_char c :: nat) \<and> (of_char c :: nat) \<le> 222 \<and> (of_char c :: nat) \<noteq> 215
      then of_char c + 32 else of_char c)"
  by (simp add: lower_char_def Let_def)

lemma toLowerCase_nth:
  assumes "i < length s"
  shows "(65 \<le> (of_char (s ! i) :: nat) \<and> (of_char (s ! i) :: nat) \<le> 90 \<longrightarrow>
            (of_char (toLowerCase s ! i) :: nat) = of_char (s ! i) + 32) \<and>
         ((of_char (s ! i) :: nat) < 65 \<or>
            90 < (of_char (s ! i) :: nat) \<and> (of_char (s ! i) :: nat) < 192 \<longrightarrow>
            toLowerCase s ! i = s ! i)"
  using assms by (simp add: toLowerCase_def lower_char_def Let_def)

text \<open>
  C8. Pattern extraction looks only at the entries whose level is \<open>error\<close> and tests the
  lower-cased message for seven groups of keywords. Provided the messages of those entries
  are strings, the result has no duplicates and holds exactly these tags: the connection
  tag when "connection" occurs in such a message, the timeout tag for "timeout", the
  not-found tag for "not found", the auth tag for "permission" or "unauthorized", the memory
  tag for "memory" or "out of memory", the disk tag for "disk" or "space", the network tag
  for "network". A single message contributes all the tags it matches: an error entry whose
  lower-cased message contains "connection timeout" puts both the connection tag and the
  timeout tag in the result. Lower-casing moves the letters A to Z to a to z and leaves every
  other character below 192 as it is, so the test does not depend on the case of the message.
\<close>

theorem extractErrorPatterns_tags:
  assumes "\<forall>e \<in> set xs. level e = ''error'' \<longrightarrow> (\<exists>s. message e = JString s)"
  shows "\<exists>ps. extractErrorPatterns xs = Inr ps \<and> distinct ps \<and>
           (\<forall>tag. tag \<in> set ps \<longleftrightarrow>
              (\<exists>e s. e \<in> set xs \<and> level e = ''error'' \<and> message e = JString s \<and>
                 (tag = ''connection_errors'' \<and> occurs_in ''connection'' (toLowerCase s) \<or>
                  tag = ''timeout_errors'' \<and> occurs_in ''timeout'' (toLowerCase s) \<or>
                  tag = ''not_found_errors'' \<and> occurs_in ''not found'' (toLowerCase s) \<or>
                  tag = ''auth_errors'' \<and>
                    (occurs_in ''permission'' (toLowerCase s) \<or>
                     occurs_in ''unauthorized'' (toLowerCase s)) \<or>
                  tag = ''memory_errors'' \<and>
                    (occurs_in ''memory'' (toLowerCase s) \<or>
                     occurs_in ''out of memory'' (toLowerCase s)) \<or>
                  tag = ''disk_errors'' \<and>
                    (occurs_in ''disk'' (toLowerCase s) \<or> occurs_in ''space'' (toLowerCase s)) \<or>
                  tag = ''network_errors'' \<and> occurs_in ''network'' (toLowerCase s)))) \<and>
           (\<forall>e s p q. e \<in> set xs \<and> level e = ''error'' \<and> message e = JString s \<and>
                  toLowerCase s = p @ ''connection timeout'' @ q \<longrightarrow>
                  ''connection_errors'' \<in> set ps \<and> ''timeout_errors'' \<in> set ps) \<and>
           (\<forall>s i. i < length s \<longrightarrow>
              (65 \<le> (of_char (s ! i) :: nat) \<and> (of_char (s ! i) :: nat) \<le> 90 \<longrightarrow>
                 (of_char (toLowerCase s ! i) :: nat) = of_char (s ! i) + 32) \<and>
              ((of_char (s ! i) :: nat) < 65 \<or>
                 90 < (of_char (s ! i) :: nat) \<and> (of_char (s ! i) :: nat) < 192 \<longrightarrow>
                 toLowerCase s ! i = s ! i))"
proof -
  let ?es = "filter (\<lambda>e. level e = ''error'') xs"
  have "\<forall>e \<in> set ?es. \<exists>s. message e = JString s" using assms by simp
  from scan_entries_strings [OF this, of "[]"]
  obtain ps where run: "scan_entries ?es [] = Inr ps"
    and tags: "set ps = (\<Union>e \<in> set ?es. entry_tags e)" and dist: "distinct ps"
    by auto
  have mem: "tag \<in> set ps \<longleftrightarrow>
      (\<exists>e s. e \<in> set xs \<and> level e = ''error'' \<and> message e = JString s \<and>
         tag \<in> tags_of pattern_table (toLowerCase s))" for tag
  proof
    assume "tag \<in> set ps"
    with tags obtain e where e: "e \<in> set xs" "level e = ''error''" "tag \<in> entry_tags e"
      by auto
    from assms e obtain s where "message e = JString s" by blast
    with e show "\<exists>e s. e \<in> set xs \<and> level e = ''error'' \<and> message e = JString s \<and>
         tag \<in> tags_of pattern_table (toLowerCase s)"
      by (auto simp: entry_tags_def)
  next
    assume "\<exists>e s. e \<in> set xs \<and> level e = ''error'' \<and> message e = JString s \<and>
         tag \<in> tags_of pattern_table (toLowerCase s)"
    then obtain e s where "e \<in> set xs" "level e = ''error''" "message e = JString s"
      "tag \<in> tags_of pattern_table (toLowerCase s)" by blast
    then have "e \<in> set ?es" "tag \<in> entry_tags e" by (auto simp: entry_tags_def)
    with tags show "tag \<in> set ps" by blast
  qed
  have both: "''connection_errors'' \<in> set ps \<and> ''timeout_errors'' \<in> set ps"
    if "e \<in> set xs" "level e = ''error''" "message e = JString s"
       "toLowerCase s = p @ ''connection timeout'' @ q" for e s p q
  proof -
    from that(4) have "toLowerCase s = p @ ''connection'' @ ('' timeout'' @ q)"
      and "toLowerCase s = (p @ ''connection '') @ ''timeout'' @ q" by simp_all
    then have "occurs_in ''connection'' (toLowerCase s)" "occurs_in ''timeout'' (toLowerCase s)"
      unfolding occurs_in_def by blast+
    then have "''connection_errors'' \<in> tags_of pattern_table (toLowerCase s)"
      and "''timeout_errors'' \<in> tags_of pattern_table (toLowerCase s)"
      unfolding tags_of_pattern_table by blast+
    with that(1-3) show ?thesis unfolding mem by blast
  qed
  have run': "extractErrorPatterns xs = Inr ps"
    using run unfolding extractErrorPatterns_def .
  from mem have mem': "\<forall>tag. tag \<in> set ps \<longleftrightarrow>
      (\<exists>e s. e \<in> set xs \<and> level e = ''error'' \<and> message e = JString s \<and>
         tag \<in> tags_of pattern_table (toLowerCase s))" by blast
  from both have both': "\<forall>e s p q. e \<in> set xs \<and> level e = ''error'' \<and> message e = JString s \<and>
                  toLowerCase s = p @ ''connection timeout'' @ q \<longrightarrow>
                  ''connection_errors'' \<in> set ps \<and> ''timeout_errors'' \<in> set ps" by blast
  from toLowerCase_nth have low: "\<forall>s i. i < length s \<longrightarrow>
              (65 \<le> (of_char (s ! i) :: nat) \<and> (of_char (s ! i) :: nat) \<le> 90 \<longrightarrow>
                 (of_char (toLowerCase s ! i) :: nat) = of_char (s ! i) + 32) \<and>
              ((of_char (s ! i) :: nat) < 65 \<or>
                 90 < (of_char (s ! i) :: nat) \<and> (of_char (s ! i) :: nat) < 192 \<longrightarrow>
                 toLowerCase s ! i = s ! i)" by blast
  from run' dist mem' both' low show ?thesis
    unfolding tags_of_pattern_table by (intro exI [of _ ps] conjI)
qed

theorem extractErrorPatterns_tags_witness:
  "\<exists>ps. extractErrorPatterns generateSampleEntries = Inr ps \<and> distinct ps \<and>
     ''connection_errors'' \<in> set ps \<and> ''timeout_errors'' \<in> set ps \<and>
     ps = [''connection_errors'', ''timeout_errors'', ''not_found_errors'']"
proof -
  let ?e = "hd generateSampleEntries"
  let ?s = "''Database connection failed: Connection timeout after 30s''"
  have h: "\<forall>e \<in> set generateSampleEntries. level e = ''error'' \<longrightarrow> (\<exists>s. message e = JString s)"
    by (simp add: generateSampleEntries_def)
  have e: "?e \<in> set generateSampleEntries \<and> level ?e = ''error'' \<and> message ?e = JString ?s \<and>
      toLowerCase ?s = ''database connection failed: '' @ ''connection timeout'' @ '' after 30s''"
    by code_simp
  have run: "extractErrorPatterns generateSampleEntries =
     Inr [''connection_errors'', ''timeout_errors'', ''not_found_errors'']"
    by code_simp
  from extractErrorPatterns_tags [OF h] show ?thesis
  proof (elim exE conjE)
    fix ps
    assume ps: "extractErrorPatterns generateSampleEntries = Inr ps" and d: "distinct ps"
      and both: "\<forall>e s p q. e \<in> set generateSampleEntries \<and> level e = ''error'' \<and>
                  message e = JString s \<and> toLowerCase s = p @ ''connection timeout'' @ q \<longrightarrow>
                  ''connection_errors'' \<in> set ps \<and> ''timeout_errors'' \<in> set ps"
    from both [rule_format, OF e]
    have two: "''connection_errors'' \<in> set ps \<and> ''timeout_errors'' \<in> set ps" .
    from ps run have v: "ps = [''connection_errors'', ''timeout_errors'', ''not_found_errors'']"
      by (simp only: sum.inject)
    from ps d two v show ?thesis by (intro exI [of _ ps] conjI) (elim conjE, assumption)+
  qed
qed

lemma dropWhile_first:
  "\<exists>t q. dropWhile (\<lambda>c. c \<noteq> l) (a @ l # rest) = l # t \<and> t = q @ rest"
proof (induction a)
  case Nil
  show ?case by simp
next
  case (Cons x a)
  show ?case
  proof (cases "x = l")
    case True
    then have "dropWhile (\<lambda>c. c \<noteq> l) ((x # a) @ l # rest) = l # (a @ [l]) @ rest" by simp
    then show ?thesis by blast
  next
    case False
    then show ?thesis using Cons.IH by simp
  qed
qed

lemma dropWhile_Cons_decomp:
  assumes "dropWhile (\<lambda>c. c \<noteq> l) s = c # t"
  shows "c = l" and "s = takeWhile (\<lambda>c. c \<noteq> l) s @ l # t"
proof -
  have "dropWhile (\<lambda>c. c \<noteq> l) s \<noteq> []" using assms by simp
  from hd_dropWhile [OF this] show c: "c = l" using assms by simp
  have "s = takeWhile (\<lambda>c. c \<noteq> l) s @ dropWhile (\<lambda>c. c \<noteq> l) s" by simp
  then show "s = takeWhile (\<lambda>c. c \<noteq> l) s @ l # t" using assms c by simp
qed

lemma match_span_None_iff:
  "match_span l r s = None \<longleftrightarrow> \<not> (\<exists>a b c. s = a @ l # b @ r # c)"
proof
  assume n: "match_span l r s = None"
  show "\<not> (\<exists>a b c. s = a @ l # b @ r # c)"
  proof
    assume "\<exists>a b c. s = a @ l # b @ r # c"
    then obtain a b c where s: "s = a @ l # b @ r # c" by blast
    from dropWhile_first [of l a "b @ r # c"] obtain t q where
      "dropWhile (\<lambda>c. c \<noteq> l) s = l # t" "t = q @ b @ r # c" using s by auto
    then show False using n by (simp add: match_span_def)
  qed
next
  assume h: "\<not> (\<exists>a b c. s = a @ l # b @ r # c)"
  show "match_span l r s = None"
  proof (cases "dropWhile (\<lambda>c. c \<noteq> l) s")
    case Nil
    then show ?thesis unfolding match_span_def by (simp del: dropWhile_eq_Nil_conv)
  next
    case (Cons c t)
    note s = dropWhile_Cons_decomp(2) [OF Cons]
    have "r \<notin> set t"
    proof
      assume "r \<in> set t"
      then obtain b d where "t = b @ r # d" by (meson split_list)
      with s have "s = takeWhile (\<lambda>c. c \<noteq> l) s @ l # b @ r # d" by simp
      with h show False by blast
    qed
    then show ?thesis using Cons by (simp add: match_span_def)
  qed
qed

section \<open>Verdict extraction\<close>

text \<open>
  C2. When the response holds no span from an opening brace to a later closing brace
  (see \<open>match_span_None_iff\<close>), or \<^verbatim>\<open>JSON.parse\<close> throws on the span, verdict extraction
  returns the fallback result: the reasoning is the whole raw response, the confidence is
  0.3 and the root cause is the fixed sentence. The function is total, so it returns and
  does not throw.
\<close>

theorem parseAIResponse_degraded:
  assumes "match_span CHR ''{'' CHR ''}'' response = None \<or>
           (\<exists>jsonMatch. match_span CHR ''{'' CHR ''}'' response = Some jsonMatch \<and>
                         JSON_parse jsonMatch = None)"
  shows "parseAIResponse JSON_parse response =
           \<lparr>rootCause = JString ''Error analysis completed, but response parsing failed'',
            affectedComponents = JArray [], suggestedFixes = [], unitTests = [],
            confidence = JNumber (Fin (3 / 10)), reasoning = JString response,
            codeAnalysis = None\<rparr>"
  using assms by (auto simp: parseAIResponse_def parse_failed_def)

text \<open>A response without any brace.\<close>

theorem parseAIResponse_degraded_witness:
  "reasoning (parseAIResponse JSON_parse_sample ''The service is overloaded, try again later.'')
     = JString ''The service is overloaded, try again later.'' \<and>
   confidence (parseAIResponse JSON_parse_sample ''The service is overloaded, try again later.'')
     = JNumber (Fin (3 / 10)) \<and>
   rootCause (parseAIResponse JSON_parse_sample ''The service is overloaded, try again later.'')
     = JString ''Error analysis completed, but response parsing failed''"
proof -
  have "match_span CHR ''{'' CHR ''}'' ''The service is overloaded, try again later.'' = None"
    by (simp add: match_span_def)
  then show ?thesis
    using parseAIResponse_degraded [of "''The service is overloaded, try again later.''" JSON_parse_sample]
    by simp
qed

text \<open>
  C3 as stated fails: a root cause of the wrong type is copied rather than replaced, and a
  confidence of 0, which is present with the correct type, is replaced by 0.5.
\<close>

theorem parseAIResponse_fields_counterexample:
  \<open>rootCause (parseAIResponse JSON_parse_sample
       ''Result: {"rootCause": 5, "confidence": 0} (end)'') = JNumber (Fin 5) \<and>
   confidence (parseAIResponse JSON_parse_sample
       ''Result: {"rootCause": 5, "confidence": 0} (end)'') = JNumber (Fin (1 / 2))\<close>
  by code_simp

text \<open>
  C3, amended. When the span parses to an object, each of rootCause, affectedComponents,
  confidence and reasoning is the value of the object's property whenever that value is
  truthy, whatever its type, and is the default ("Unable to determine root cause", the
  empty sequence, 0.5, "Analysis completed") when the property is missing or its value is
  falsy: \<^verbatim>\<open>null\<close>, \<^verbatim>\<open>false\<close>, 0, NaN or the empty string.
\<close>

theorem parseAIResponse_fields:
  assumes "match_span CHR ''{'' CHR ''}'' response = Some jsonMatch"
      and "JSON_parse jsonMatch = Some (JObject kvs)"
  shows "rootCause (parseAIResponse JSON_parse response) =
           field_or_default kvs ''rootCause'' (JString ''Unable to determine root cause'') \<and>
         affectedComponents (parseAIResponse JSON_parse response) =
           field_or_default kvs ''affectedComponents'' (JArray []) \<and>
         confidence (parseAIResponse JSON_parse response) =
           field_or_default kvs ''confidence'' (JNumber (Fin (1 / 2))) \<and>
         reasoning (parseAIResponse JSON_parse response) =
           field_or_default kvs ''reasoning'' (JString ''Analysis completed'')"
  using assms
  by (simp add: parseAIResponse_def field_or_default_def js_or_def own_prop_def
      split: option.splits)

theorem parseAIResponse_fields_witness:
  \<open>rootCause (parseAIResponse JSON_parse_sample
       ''Verdict: {"rootCause": "pool exhausted", "confidence": 0.9}'') = JString ''pool exhausted'' \<and>
   confidence (parseAIResponse JSON_parse_sample
       ''Verdict: {"rootCause": "pool exhausted", "confidence": 0.9}'') = JNumber (Fin (9 / 10)) \<and>
   reasoning (parseAIResponse JSON_parse_sample
       ''Verdict: {"rootCause": "pool exhausted", "confidence": 0.9}'') = JString ''Analysis completed''\<close>
proof -
  have m: \<open>match_span CHR ''{'' CHR ''}''
             ''Verdict: {"rootCause": "pool exhausted", "confidence": 0.9}''
           = Some ''{"rootCause": "pool exhausted", "confidence": 0.9}''\<close>
    by (simp add: match_span_def)
  have p: \<open>JSON_parse_sample ''{"rootCause": "pool exhausted", "confidence": 0.9}''
           = Some (JObject [(''rootCause'', JString ''pool exhausted''),
                            (''confidence'', JNumber (Fin (9 / 10)))])\<close>
    by (simp add: JSON_parse_sample_def)
  show ?thesis
    using parseAIResponse_fields [where JSON_parse = JSON_parse_sample, OF m p] by (simp add: field_or_default_def)
qed

section \<open>Fix generation\<close>

lemma normalize_fix_Inr:
  "fx \<noteq> JNull \<Longrightarrow> fx \<noteq> JUndefined \<Longrightarrow>
   \<exists>f. normalize_fix fx i = Inr f \<and> fix_id f = ''fix-'' @ string_of_nat i"
  by (cases fx) (simp_all add: normalize_fix_def)

lemma map_fixes_Inr:
  "JNull \<notin> set elems \<Longrightarrow> JUndefined \<notin> set elems \<Longrightarrow>
   \<exists>fs. map_fixes elems i = Inr fs \<and> length fs = length elems \<and>
        (\<forall>k < length elems. fix_id (fs ! k) = ''fix-'' @ string_of_nat (i + k))"
proof (induction elems arbitrary: i)
  case Nil
  then show ?case by simp
next
  case (Cons fx rest)
  then have "fx \<noteq> JNull" "fx \<noteq> JUndefined" by auto
  from normalize_fix_Inr [OF this, of i] obtain f where
    f: "normalize_fix fx i = Inr f" "fix_id f = ''fix-'' @ string_of_nat i" by blast
  from Cons.prems have "JNull \<notin> set rest" "JUndefined \<notin> set rest" by auto
  from Cons.IH [OF this, of "i + 1"] obtain fs where
    fs: "map_fixes rest (i + 1) = Inr fs" "length fs = length rest"
      "\<forall>k < length rest. fix_id (fs ! k) = ''fix-'' @ string_of_nat (i + 1 + k)" by blast
  have "\<forall>k < length (fx # rest). fix_id ((f # fs) ! k) = ''fix-'' @ string_of_nat (i + k)"
  proof (intro allI impI)
    fix k assume "k < length (fx # rest)"
    then show "fix_id ((f # fs) ! k) = ''fix-'' @ string_of_nat (i + k)"
      using f(2) fs(3) by (cases k) auto
  qed
  then show ?case using f(1) fs(1,2) by simp
qed

lemma map_fixes_Inl:
  "JNull \<in> set elems \<or> JUndefined \<in> set elems \<Longrightarrow> \<exists>e. map_fixes elems i = Inl e"
proof (induction elems arbitrary: i)
  case Nil
  then show ?case by simp
next
  case (Cons fx rest)
  show ?case
  proof (cases "fx = JNull \<or> fx = JUndefined")
    case True
    then show ?thesis by (auto simp: normalize_fix_def)
  next
    case False
    with Cons.prems have "JNull \<in> set rest \<or> JUndefined \<in> set rest" by auto
    from Cons.IH [OF this, of "i + 1"] obtain e where "map_fixes rest (i + 1) = Inl e" by blast
    then show ?thesis by (simp split: sum.splits)
  qed
qed

text \<open>
  C7 as stated fails: when the completion service answers with an empty JSON array, the
  call and the parse both succeed and fix generation returns no fix at all.
\<close>

theorem generateFixes_empty_counterexample:
  "generateFixes JSON_parse_sample OpenAI (Inr ''[]'') (JString ''pool exhausted'') None = Inr []"
  by code_simp

text \<open>
  C7, amended. Whenever the prompt of fix generation can be built: if the call to the
  completion service fails, or its response has no bracketed span, or \<^verbatim>\<open>JSON.parse\<close>
  throws on the span, or an element of the parsed array is \<^verbatim>\<open>null\<close>, fix generation
  returns exactly the one canned fix, whose priority is "high" and whose kind is "code";
  when the span parses to an array without \<^verbatim>\<open>null\<close> elements it returns one fix per
  element, numbered from \<open>fix-0\<close>, hence no fix when the array is empty.
\<close>

theorem generateFixes_outcomes:
  assumes "buildFixPrompt root_cause lg = Inr ()"
  shows "((\<exists>err. outcome = Inl err) \<or>
          (\<exists>response. outcome = Inr response \<and>
             (match_span CHR ''['' CHR '']'' response = None \<or>
              (\<exists>jsonMatch. match_span CHR ''['' CHR '']'' response = Some jsonMatch \<and>
                 (JSON_parse jsonMatch = None \<or>
                  (\<exists>elems. JSON_parse jsonMatch = Some (JArray elems) \<and> JNull \<in> set elems)))))
          \<longrightarrow> generateFixes JSON_parse provider outcome root_cause lg = Inr fallback_fixes) \<and>
         (\<forall>response jsonMatch elems.
            outcome = Inr response \<and> match_span CHR ''['' CHR '']'' response = Some jsonMatch \<and>
            JSON_parse jsonMatch = Some (JArray elems) \<and> JNull \<notin> set elems \<and>
            JUndefined \<notin> set elems
            \<longrightarrow> (\<exists>fs. generateFixes JSON_parse provider outcome root_cause lg = Inr fs \<and>
                    length fs = length elems \<and>
                    (\<forall>k < length elems. fix_id (fs ! k) = ''fix-'' @ string_of_nat k))) \<and>
         length fallback_fixes = 1 \<and>
         fix_priority (hd fallback_fixes) = JString ''high'' \<and>
         fix_type (hd fallback_fixes) = JString ''code''"
proof (intro conjI impI allI)
  assume "(\<exists>err. outcome = Inl err) \<or>
          (\<exists>response. outcome = Inr response \<and>
             (match_span CHR ''['' CHR '']'' response = None \<or>
              (\<exists>jsonMatch. match_span CHR ''['' CHR '']'' response = Some jsonMatch \<and>
                 (JSON_parse jsonMatch = None \<or>
                  (\<exists>elems. JSON_parse jsonMatch = Some (JArray elems) \<and> JNull \<in> set elems)))))"
  then consider
      (call) err where "outcome = Inl err"
    | (span) response where "outcome = Inr response" "match_span CHR ''['' CHR '']'' response = None"
    | (parse) response jsonMatch where "outcome = Inr response"
        "match_span CHR ''['' CHR '']'' response = Some jsonMatch" "JSON_parse jsonMatch = None"
    | (null) response jsonMatch elems where "outcome = Inr response"
        "match_span CHR ''['' CHR '']'' response = Some jsonMatch"
        "JSON_parse jsonMatch = Some (JArray elems)" "JNull \<in> set elems"
    by blast
  then show "generateFixes JSON_parse provider outcome root_cause lg = Inr fallback_fixes"
  proof cases
    case call
    then show ?thesis using assms by (simp add: generateFixes_def generateAnalysis_def)
  next
    case span
    then show ?thesis using assms by (simp add: generateFixes_def generateAnalysis_def)
  next
    case parse
    then show ?thesis using assms by (simp add: generateFixes_def generateAnalysis_def)
  next
    case null
    from map_fixes_Inl [of elems 0] null(4) obtain e where "map_fixes elems 0 = Inl e" by blast
    then show ?thesis using null assms by (simp add: generateFixes_def generateAnalysis_def)
  qed
next
  fix response jsonMatch elems
  assume a: "outcome = Inr response \<and> match_span CHR ''['' CHR '']'' response = Some jsonMatch \<and>
            JSON_parse jsonMatch = Some (JArray elems) \<and> JNull \<notin> set elems \<and>
            JUndefined \<notin> set elems"
  then have "JNull \<notin> set elems" "JUndefined \<notin> set elems" by auto
  from map_fixes_Inr [OF this, of 0] obtain fs where
    "map_fixes elems 0 = Inr fs" "length fs = length elems"
    "\<forall>k < length elems. fix_id (fs ! k) = ''fix-'' @ string_of_nat k" by auto
  then show "\<exists>fs. generateFixes JSON_parse provider outcome root_cause lg = Inr fs \<and>
                    length fs = length elems \<and>
                    (\<forall>k < length elems. fix_id (fs ! k) = ''fix-'' @ string_of_nat k)"
    using a assms by (simp add: generateFixes_def generateAnalysis_def)
qed (simp_all add: fallback_fixes_def)

theorem generateFixes_outcomes_witness:
  \<open>generateFixes JSON_parse_sample OpenAI (Inl (Error ''socket hang up'')) (JString ''pool exhausted'') None
     = Inr fallback_fixes \<and>
   (\<exists>fs. generateFixes JSON_parse_sample OpenAI
            (Inr ''Fixes: [{"description": "Add a retry", "priority": "high"}]'')
            (JString ''pool exhausted'') None = Inr fs \<and> length fs = 1)\<close>
proof -
  have b: "buildFixPrompt (JString ''pool exhausted'') None = Inr ()"
    by (simp add: buildFixPrompt_def)
  note t = generateFixes_outcomes [OF b, where JSON_parse = JSON_parse_sample and provider = OpenAI]
  have 1: "generateFixes JSON_parse_sample OpenAI (Inl (Error ''socket hang up''))
             (JString ''pool exhausted'') None = Inr fallback_fixes"
    using t [of "Inl (Error ''socket hang up'')"] by blast
  have m: \<open>match_span CHR ''['' CHR '']'' ''Fixes: [{"description": "Add a retry", "priority": "high"}]''
           = Some ''[{"description": "Add a retry", "priority": "high"}]''\<close>
    by (simp add: match_span_def)
  have p: \<open>JSON_parse_sample ''[{"description": "Add a retry", "priority": "high"}]''
           = Some (JArray [JObject [(''description'', JString ''Add a retry''),
                                    (''priority'', JString ''high'')]])\<close>
    by (simp add: JSON_parse_sample_def)
  have 2: \<open>\<exists>fs. generateFixes JSON_parse_sample OpenAI
            (Inr ''Fixes: [{"description": "Add a retry", "priority": "high"}]'')
            (JString ''pool exhausted'') None = Inr fs \<and> length fs = 1\<close>
    using t [of \<open>Inr ''Fixes: [{"description": "Add a retry", "priority": "high"}]''\<close>] m p
    by auto
  from 1 2 show ?thesis by blast
qed

section \<open>Targeted search\<close>

lemma map_of_update_alist:
  "map_of (AList.update k v al) k' = (if k' = k then Some v else map_of al k')"
  by (simp add: update_conv')

lemma consistent_initial: "consistent (initializeDefaultServers getenv)"
  by (auto simp: consistent_def initializeDefaultServers_def defaultServers_def
      split: if_splits)

lemma consistent_connectServer:
  assumes "consistent m" and "connectServer net m sid = Inr (ok, m')"
  shows "consistent m'"
proof (cases "map_of (servers m) sid")
  case None
  then show ?thesis using assms by (simp add: connectServer_def)
next
  case (Some server)
  show ?thesis
  proof (cases "new_client server")
    case None
    then show ?thesis using assms Some by (simp add: connectServer_def)
  next
    case (Some client)
    show ?thesis
    proof (cases "client_connect net client")
      case True
      then have "m' = m\<lparr>clients := AList.update sid client (clients m),
                         servers := AList.update sid (server\<lparr>isConnected := True\<rparr>) (servers m)\<rparr>"
        using assms \<open>map_of (servers m) sid = Some server\<close> Some by (simp add: connectServer_def)
      then show ?thesis using assms(1)
        by (auto simp: consistent_def update_conv')
    next
      case False
      then show ?thesis
        using assms \<open>map_of (servers m) sid = Some server\<close> Some by (simp add: connectServer_def)
    qed
  qed
qed

lemma consistent_disconnectServer:
  assumes "consistent m"
  shows "consistent (disconnectServer m sid)"
  using assms
  by (auto simp: consistent_def disconnectServer_def Let_def update_conv' delete_conv'
      split: option.splits if_splits)

text \<open>
  C9 as stated fails: on a fresh manager no backend is connected, and a search targeted at
  the registered id \<open>github\<close> returns the empty sequence instead of failing.
\<close>

theorem searchCode_not_connected_counterexample:
  "searchCode network_down (initializeDefaultServers (\<lambda>k. None)) ''timeout'' (Some ''github'')
     = Inr []"
  by code_simp

text \<open>
  C9, amended. For every query and every registered backend id, a targeted search issued
  while that backend is not connected returns the empty sequence and reports no error:
  the guard \<^verbatim>\<open>if (client)\<close> skips the search. (\<^verbatim>\<open>getFileContent\<close> and \<^verbatim>\<open>listFiles\<close>
  are the operations that throw "not connected".)
\<close>

theorem searchCode_not_connected:
  assumes "consistent m"
      and "map_of (servers m) sid = Some server"
      and "\<not> isConnected server"
      and "sid \<noteq> []"
  shows "searchCode net m query (Some sid) = Inr []"
proof -
  have "map_of (clients m) sid = None"
    using assms(1,2,3) by (auto simp: consistent_def)
  then show ?thesis using assms(4) by (simp add: searchCode_def)
qed

text \<open>The local index backend after a disconnect.\<close>

theorem searchCode_not_connected_witness:
  "searchCode network_down
     (disconnectServer (initializeDefaultServers (\<lambda>k. None)) ''code-index'')
     ''timeout'' (Some ''code-index'') = Inr []"
proof -
  let ?m = "disconnectServer (initializeDefaultServers (\<lambda>k. None)) ''code-index''"
  have c: "consistent ?m"
    by (rule consistent_disconnectServer) (rule consistent_initial)
  have s: "map_of (servers ?m) ''code-index'' =
             Some \<lparr>server_id = ''code-index'', server_name = ''Code Index MCP'',
                   server_type = CodeIndex,
                   server_config = [(''indexPath'', JString ''/tmp/code-index''),
                        (''languages'', JArray [JString ''typescript'', JString ''javascript'',
                                                JString ''python''])],
                   isConnected = False\<rparr>"
    by code_simp
  show ?thesis
    by (rule searchCode_not_connected [OF c s]) simp_all
qed

section \<open>The level of a classified line\<close>

lemma expect_Some: "expect lit s = Some r \<Longrightarrow> s = lit @ r"
  by (auto simp: expect_def prefix_def split: if_splits)

lemma take_plus_Some:
  "take_plus P s = Some (a, r) \<Longrightarrow> s = a @ r \<and> a \<noteq> [] \<and> list_all P a"
  by (auto simp: take_plus_def list_all_iff split: if_splits dest: set_takeWhileD)

lemma expect_T_or_space_Some: "expect_T_or_space s = Some r \<Longrightarrow> \<exists>c. s = c # r"
  by (auto simp: expect_T_or_space_def split: list.splits if_splits)

lemma run_unique:
  "list_all P a \<Longrightarrow> r = [] \<or> \<not> P (hd r) \<Longrightarrow>
   takeWhile P (a @ r) = a \<and> dropWhile P (a @ r) = r"
  by (induction a) (auto simp: takeWhile_eq_Nil_iff dropWhile_eq_self_iff)

lemma runs_eq:
  assumes "a @ r = b @ t" "list_all P a" "list_all P b"
    "r = [] \<or> \<not> P (hd r)" "t = [] \<or> \<not> P (hd t)"
  shows "a = b \<and> r = t"
proof -
  from run_unique [OF assms(2,4)] run_unique [OF assms(3,5)] assms(1)
  show ?thesis by metis
qed

lemma take_plus_run:
  "take_plus P s = Some (a, r) \<Longrightarrow>
   s = a @ r \<and> a \<noteq> [] \<and> list_all P a \<and> (r = [] \<or> \<not> P (hd r))"
  by (auto simp: take_plus_def list_all_iff hd_dropWhile split: if_splits dest: set_takeWhileD)

lemma word_not_space: "is_word c \<Longrightarrow> \<not> is_space c"
  by (auto simp: is_word_def is_space_def Let_def)

lemma digit_not_space: "is_digit c \<Longrightarrow> \<not> is_space c"
  by (auto simp: is_digit_def is_space_def Let_def)

lemma not_word_colon: "\<not> is_word CHR '':''" by (simp add: is_word_def)
lemma not_word_bracket: "\<not> is_word CHR '']''" by (simp add: is_word_def)

lemma standard_level_word_unique:
  assumes "standard_level_word line v" "standard_level_word line w"
  shows "v = w"
proof -
  from assms(1) obtain ts sp rest where
    1: "line = ''['' @ ts @ '']'' @ sp @ v @ '':'' @ rest" "list_all (\<lambda>c. c \<noteq> CHR '']'') ts"
       "sp \<noteq> []" "list_all is_space sp" "v \<noteq> []" "list_all is_word v"
    unfolding standard_level_word_def by blast
  from assms(2) obtain ts' sp' rest' where
    2: "line = ''['' @ ts' @ '']'' @ sp' @ w @ '':'' @ rest'" "list_all (\<lambda>c. c \<noteq> CHR '']'') ts'"
       "sp' \<noteq> []" "list_all is_space sp'" "w \<noteq> []" "list_all is_word w"
    unfolding standard_level_word_def by blast
  from 1(1) 2(1) have "ts @ ('']'' @ sp @ v @ '':'' @ rest) = ts' @ ('']'' @ sp' @ w @ '':'' @ rest')"
    by simp
  from runs_eq [OF this 1(2) 2(2)] have "sp @ (v @ '':'' @ rest) = sp' @ (w @ '':'' @ rest')"
    by simp
  moreover have "\<not> is_space (hd (v @ '':'' @ rest))" "\<not> is_space (hd (w @ '':'' @ rest'))"
    using 1(5,6) 2(5,6) by (cases v; cases w; simp add: word_not_space)+
  ultimately have "v @ ('':'' @ rest) = w @ ('':'' @ rest')"
    using runs_eq [OF _ 1(4) 2(4)] by blast
  from runs_eq [OF this 1(6) 2(6)] show ?thesis by (simp add: not_word_colon)
qed

lemma standard_level_word:
  assumes "parseStandardFormat line = Some e"
  shows "\<exists>lv. standard_level_word line lv \<and> level e = toLowerCase lv"
proof -
  from assms obtain r1 ts r2 r3 sp r4 lv r5 r6 where
    1: "expect ''['' line = Some r1" and 2: "take_plus (\<lambda>c. c \<noteq> CHR '']'') r1 = Some (ts, r2)"
    and 3: "expect '']'' r2 = Some r3" and 4: "take_plus is_space r3 = Some (sp, r4)"
    and 5: "take_plus is_word r4 = Some (lv, r5)" and 7: "expect '':'' r5 = Some r6"
    and 6: "level e = toLowerCase lv"
    by (auto simp: parseStandardFormat_def split: option.splits prod.splits)
  have eq: "line = ''['' @ ts @ '']'' @ sp @ lv @ '':'' @ r6"
    using expect_Some [OF 1] take_plus_Some [OF 2] expect_Some [OF 3] take_plus_Some [OF 4]
      take_plus_Some [OF 5] expect_Some [OF 7] by simp
  have "standard_level_word line lv"
    unfolding standard_level_word_def
    using eq take_plus_Some [OF 2] take_plus_Some [OF 4] take_plus_Some [OF 5] by blast
  with 6 show ?thesis by blast
qed

lemma nginx_level_word_unique:
  assumes "nginx_level_word line v" "nginx_level_word line w"
  shows "v = w"
proof -
  from assms(1) obtain ts rest where
    1: "line = ts @ '' ['' @ v @ ''] '' @ rest" "length ts = 19" "list_all is_word v"
    unfolding nginx_level_word_def by blast
  from assms(2) obtain ts' rest' where
    2: "line = ts' @ '' ['' @ w @ ''] '' @ rest'" "length ts' = 19" "list_all is_word w"
    unfolding nginx_level_word_def by blast
  from 1(1,2) 2(1,2) have "ts = ts' \<and> '' ['' @ v @ ''] '' @ rest = '' ['' @ w @ ''] '' @ rest'"
    by (metis append_eq_append_conv)
  then have "v @ (''] '' @ rest) = w @ (''] '' @ rest')" by simp
  from runs_eq [OF this 1(3) 2(3)] show ?thesis by (simp add: not_word_bracket)
qed

lemma match_template_length:
  "match_template t s = Some r \<Longrightarrow>
   \<exists>pre. s = pre @ r \<and> length pre = length t \<and>
     (list_all (\<lambda>c. \<not> is_space c) t \<longrightarrow> list_all (\<lambda>c. \<not> is_space c) pre)"
proof (induction t s rule: match_template.induct)
  case (1 s)
  then show ?case by simp
next
  case (2 t ts)
  then show ?case by simp
next
  case (3 t ts c cs)
  then have ok: "if t = CHR ''d'' then is_digit c else c = t"
    and m: "match_template ts cs = Some r" by (auto split: if_splits)
  from "3.IH" [OF ok m] obtain pre where pre: "cs = pre @ r" "length pre = length ts"
    "list_all (\<lambda>c. \<not> is_space c) ts \<longrightarrow> list_all (\<lambda>c. \<not> is_space c) pre" by blast
  have "\<not> is_space t \<longrightarrow> \<not> is_space c" using ok by (auto simp: digit_not_space split: if_splits)
  with pre have "c # cs = (c # pre) @ r \<and> length (c # pre) = length (t # ts) \<and>
     (list_all (\<lambda>c. \<not> is_space c) (t # ts) \<longrightarrow> list_all (\<lambda>c. \<not> is_space c) (c # pre))"
    by simp
  then show ?case by blast
qed

lemma nginx_level_word:
  assumes "parseNginxFormat line = Some e"
  shows "\<exists>lv. nginx_level_word line lv \<and> level e = toLowerCase lv"
proof -
  from assms obtain r1 r2 lv r3 r4 where
    1: "match_template ''dddd/dd/dd dd:dd:dd'' line = Some r1" and 2: "expect '' ['' r1 = Some r2"
    and 3: "take_plus is_word r2 = Some (lv, r3)" and 4: "expect ''] '' r3 = Some r4"
    and 6: "level e = toLowerCase lv"
    by (auto simp: parseNginxFormat_def split: option.splits prod.splits)
  from match_template_length [OF 1] obtain pre where pre: "line = pre @ r1" "length pre = 19"
    by auto
  then have eq: "line = pre @ '' ['' @ lv @ ''] '' @ r4"
    using expect_Some [OF 2] take_plus_Some [OF 3] expect_Some [OF 4] by simp
  have "nginx_level_word line lv"
    unfolding nginx_level_word_def using eq pre(2) take_plus_Some [OF 3] by blast
  with 6 show ?thesis by blast
qed

lemma apache_level_word_unique:
  assumes "apache_level_word line v" "apache_level_word line w"
  shows "v = w"
proof -
  from assms(1) obtain ts rest where
    1: "line = ''['' @ ts @ ''] ['' @ v @ ''] '' @ rest" "list_all (\<lambda>c. c \<noteq> CHR '']'') ts"
       "list_all is_word v"
    unfolding apache_level_word_def by blast
  from assms(2) obtain ts' rest' where
    2: "line = ''['' @ ts' @ ''] ['' @ w @ ''] '' @ rest'" "list_all (\<lambda>c. c \<noteq> CHR '']'') ts'"
       "list_all is_word w"
    unfolding apache_level_word_def by blast
  from 1(1) 2(1) have "ts @ (''] ['' @ v @ ''] '' @ rest) = ts' @ (''] ['' @ w @ ''] '' @ rest')"
    by simp
  from runs_eq [OF this 1(2) 2(2)] have "v @ (''] '' @ rest) = w @ (''] '' @ rest')"
    by simp
  from runs_eq [OF this 1(3) 2(3)] show ?thesis by (simp add: not_word_bracket)
qed

lemma apache_level_word:
  assumes "parseApacheFormat line = Some e"
  shows "\<exists>lv. apache_level_word line lv \<and> level e = toLowerCase lv"
proof -
  from assms obtain r1 ts r2 r3 lv r4 r5 where
    1: "expect ''['' line = Some r1" and 2: "take_plus (\<lambda>c. c \<noteq> CHR '']'') r1 = Some (ts, r2)"
    and 3: "expect ''] ['' r2 = Some r3"
    and 5: "take_plus is_word r3 = Some (lv, r4)" and 7: "expect ''] '' r4 = Some r5"
    and 6: "level e = toLowerCase lv"
    by (auto simp: parseApacheFormat_def split: option.splits prod.splits)
  have eq: "line = ''['' @ ts @ ''] ['' @ lv @ ''] '' @ r5"
    using expect_Some [OF 1] take_plus_Some [OF 2] expect_Some [OF 3]
      take_plus_Some [OF 5] expect_Some [OF 7] by simp
  have "apache_level_word line lv"
    unfolding apache_level_word_def
    using eq take_plus_Some [OF 2] take_plus_Some [OF 5] by blast
  with 6 show ?thesis by blast
qed

lemma opt_millis_prefix:
  "\<exists>pre. s = pre @ opt_millis s \<and> list_all (\<lambda>c. \<not> is_space c) pre"
proof (cases "match_template ''.ddd'' s")
  case None
  then show ?thesis by (simp add: opt_millis_def)
next
  case (Some r)
  have "list_all (\<lambda>c. \<not> is_space c) ''.ddd''" by (simp add: is_space_def)
  with match_template_length [OF Some] obtain pre where
    "s = pre @ r" "list_all (\<lambda>c. \<not> is_space c) pre" by blast
  then show ?thesis using Some by (auto simp: opt_millis_def)
qed

lemma opt_zone_prefix:
  "\<exists>pre. s = pre @ opt_zone s \<and> list_all (\<lambda>c. \<not> is_space c) pre"
proof (cases "expect ''Z'' s")
  case (Some r)
  from expect_Some [OF Some] have "s = ''Z'' @ opt_zone s" using Some by (simp add: opt_zone_def)
  moreover have "list_all (\<lambda>c. \<not> is_space c) ''Z''" by (simp add: is_space_def)
  ultimately show ?thesis by blast
next
  case None
  show ?thesis
  proof (cases s)
    case Nil
    then show ?thesis using None by (simp add: opt_zone_def)
  next
    case (Cons c cs)
    show ?thesis
    proof (cases "(c = CHR ''+'' \<or> c = CHR ''-'') \<and> match_template ''dd:dd'' cs \<noteq> None")
      case True
      then obtain r where r: "match_template ''dd:dd'' cs = Some r" by auto
      have "list_all (\<lambda>c. \<not> is_space c) ''dd:dd''" by (simp add: is_space_def)
      with match_template_length [OF r] obtain pre where
        pre: "cs = pre @ r" "list_all (\<lambda>c. \<not> is_space c) pre" by blast
      have c: "\<not> is_space c" using True by (auto simp: is_space_def)
      have "s = (c # pre) @ r" using Cons pre by simp
      moreover have "opt_zone s = r" using None Cons True r by (auto simp: opt_zone_def)
      moreover have "list_all (\<lambda>c. \<not> is_space c) (c # pre)" using c pre by simp
      ultimately show ?thesis by metis
    next
      case False
      then have "opt_zone s = s" using None Cons by (auto simp: opt_zone_def split: option.splits)
      then show ?thesis by simp
    qed
  qed
qed

lemma spaces_dot_plus_end_starts:
  "spaces_dot_plus_end s = Some msg \<Longrightarrow> s \<noteq> [] \<and> is_space (hd s)"
  by (cases s) (auto simp: spaces_dot_plus_end_def Let_def split: if_splits)

lemma application_level_word:
  assumes "parseApplicationFormat line = Some e"
  shows "\<exists>lv. application_level_word line lv \<and> level e = toLowerCase lv"
proof -
  from assms obtain r1 r2 r3 sp r5 lv r6 msg where
    1: "match_template ''dddd-dd-dd'' line = Some r1" and 2: "expect_T_or_space r1 = Some r2"
    and 3: "match_template ''dd:dd:dd'' r2 = Some r3"
    and 4: "take_plus is_space (opt_zone (opt_millis r3)) = Some (sp, r5)"
    and 5: "take_plus is_word r5 = Some (lv, r6)" and 7: "spaces_dot_plus_end r6 = Some msg"
    and 6: "level e = toLowerCase lv"
    by (auto simp: parseApplicationFormat_def split: option.splits prod.splits)
  from match_template_length [OF 1] obtain p1 where p1: "line = p1 @ r1" "length p1 = 10"
    by auto
  from expect_T_or_space_Some [OF 2] obtain c where c: "r1 = c # r2" by blast
  from match_template_length [OF 3] obtain p2 where p2: "r2 = p2 @ r3" "length p2 = 8"
    by auto
  from opt_millis_prefix obtain p3 where
    p3: "r3 = p3 @ opt_millis r3" "list_all (\<lambda>c. \<not> is_space c) p3" by blast
  from opt_zone_prefix obtain p4 where
    p4: "opt_millis r3 = p4 @ opt_zone (opt_millis r3)" "list_all (\<lambda>c. \<not> is_space c) p4"
    by blast
  let ?ts = "p1 @ c # p2 @ p3 @ p4"
  have "line = ?ts @ opt_zone (opt_millis r3)"
    using p1(1) c p2(1) p3(1) p4(1) by (metis append.assoc append_Cons)
  then have eq: "line = ?ts @ sp @ lv @ r6"
    using take_plus_Some [OF 4] take_plus_Some [OF 5] by simp
  have len: "19 \<le> length ?ts" using p1(2) p2(2) by simp
  have "drop 19 ?ts = p3 @ p4" using p1(2) p2(2) by simp
  then have ns: "list_all (\<lambda>c. \<not> is_space c) (drop 19 ?ts)" using p3(2) p4(2) by simp
  have "application_level_word line lv"
    unfolding application_level_word_def
    using eq len ns take_plus_Some [OF 4] take_plus_Some [OF 5] spaces_dot_plus_end_starts [OF 7]
    by blast
  with 6 show ?thesis by blast
qed

lemma application_level_word_unique:
  assumes "application_level_word line v" "application_level_word line w"
  shows "v = w"
proof -
  from assms(1) obtain ts sp rest where
    1: "line = ts @ sp @ v @ rest" "19 \<le> length ts"
       "list_all (\<lambda>c. \<not> is_space c) (drop 19 ts)"
       "sp \<noteq> []" "list_all is_space sp" "v \<noteq> []" "list_all is_word v"
       "rest \<noteq> []" "is_space (hd rest)"
    unfolding application_level_word_def by blast
  from assms(2) obtain ts' sp' rest' where
    2: "line = ts' @ sp' @ w @ rest'" "19 \<le> length ts'"
       "list_all (\<lambda>c. \<not> is_space c) (drop 19 ts')"
       "sp' \<noteq> []" "list_all is_space sp'" "w \<noteq> []" "list_all is_word w"
       "rest' \<noteq> []" "is_space (hd rest')"
    unfolding application_level_word_def by blast
  have "drop 19 line = drop 19 ts @ (sp @ v @ rest)" using 1(1,2) by simp
  moreover have "drop 19 line = drop 19 ts' @ (sp' @ w @ rest')" using 2(1,2) by simp
  ultimately have a: "drop 19 ts @ (sp @ v @ rest) = drop 19 ts' @ (sp' @ w @ rest')" by simp
  have "\<not> \<not> is_space (hd (sp @ v @ rest))" "\<not> \<not> is_space (hd (sp' @ w @ rest'))"
    using 1(4,5) 2(4,5) by (cases sp; cases sp'; simp)+
  with runs_eq [OF a 1(3) 2(3)] have b: "sp @ (v @ rest) = sp' @ (w @ rest')" by blast
  have "\<not> is_space (hd (v @ rest))" "\<not> is_space (hd (w @ rest'))"
    using 1(6,7) 2(6,7) by (cases v; cases w; simp add: word_not_space)+
  with runs_eq [OF b 1(5) 2(5)] have c: "v @ rest = w @ rest'" by blast
  have "\<not> is_word (hd rest)" "\<not> is_word (hd rest')"
    using 1(9) 2(9) word_not_space by blast+
  with runs_eq [OF c 1(7) 2(7)] show ?thesis by blast
qed

text \<open>
  C5 as stated fails: the bracketed-timestamp matcher accepts any word as the level and
  only lower-cases it, so a \<open>FATAL\<close> line yields the level \<open>fatal\<close>.
\<close>

theorem pattern_level_counterexample:
  "map_option level (parseStandardFormat ''[2024-06-14 12:00:00] FATAL: disk failure'')
     = Some ''fatal''"
  by code_simp

text \<open>
  C5, amended. For every line classified by one of the four pattern matchers (bracketed
  timestamp, the two web-server styles, ISO timestamp), the level of the record is the
  lower-cased form of the word matched in the level position of the line, and of no other
  part of it. In the bracketed style that word follows the closing bracket of the timestamp
  and the blanks after it, and ends at the colon; in the first web-server style it stands
  between \<open>[\<close> and \<open>]\<close> after the 19 characters of the timestamp and a blank; in the second
  between \<open>[\<close> and \<open>]\<close> after the bracketed timestamp and a blank; in the ISO style it is the
  word after the timestamp and the blanks that follow it, ended by a blank. Each line has
  exactly one such word. It is not checked against error, warn, info and debug, so the level
  is one of the four only when the line spells one of them.
\<close>

theorem pattern_level:
  "(parseStandardFormat line = Some e \<longrightarrow>
      (\<exists>lv. standard_level_word line lv \<and> (\<forall>w. standard_level_word line w \<longrightarrow> w = lv) \<and>
         level e = toLowerCase lv)) \<and>
   (parseNginxFormat line = Some e \<longrightarrow>
      (\<exists>lv. nginx_level_word line lv \<and> (\<forall>w. nginx_level_word line w \<longrightarrow> w = lv) \<and>
         level e = toLowerCase lv)) \<and>
   (parseApacheFormat line = Some e \<longrightarrow>
      (\<exists>lv. apache_level_word line lv \<and> (\<forall>w. apache_level_word line w \<longrightarrow> w = lv) \<and>
         level e = toLowerCase lv)) \<and>
   (parseApplicationFormat line = Some e \<longrightarrow>
      (\<exists>lv. application_level_word line lv \<and>
         (\<forall>w. application_level_word line w \<longrightarrow> w = lv) \<and> level e = toLowerCase lv))"
proof (intro conjI impI)
  assume "parseStandardFormat line = Some e"
  from standard_level_word [OF this] standard_level_word_unique
  show "\<exists>lv. standard_level_word line lv \<and> (\<forall>w. standard_level_word line w \<longrightarrow> w = lv) \<and>
         level e = toLowerCase lv" by blast
next
  assume "parseNginxFormat line = Some e"
  from nginx_level_word [OF this] nginx_level_word_unique
  show "\<exists>lv. nginx_level_word line lv \<and> (\<forall>w. nginx_level_word line w \<longrightarrow> w = lv) \<and>
         level e = toLowerCase lv" by blast
next
  assume "parseApacheFormat line = Some e"
  from apache_level_word [OF this] apache_level_word_unique
  show "\<exists>lv. apache_level_word line lv \<and> (\<forall>w. apache_level_word line w \<longrightarrow> w = lv) \<and>
         level e = toLowerCase lv" by blast
next
  assume "parseApplicationFormat line = Some e"
  from application_level_word [OF this] application_level_word_unique
  show "\<exists>lv. application_level_word line lv \<and>
         (\<forall>w. application_level_word line w \<longrightarrow> w = lv) \<and> level e = toLowerCase lv" by blast
qed

text \<open>One line of each of the four styles, with the level word in upper or mixed case.\<close>

theorem pattern_level_witness:
  "(parseStandardFormat ''[2024-06-14 12:00:00] ERROR: disk failure'' =
      Some \<lparr>timestamp = JString ''2024-06-14 12:00:00'', level = ''error'',
            message = JString ''disk failure'', source = JString ''application'',
            stackTrace = JUndefined, entry_context = JUndefined\<rparr> \<and>
    (\<exists>lv. standard_level_word ''[2024-06-14 12:00:00] ERROR: disk failure'' lv \<and>
       ''error'' = toLowerCase lv)) \<and>
   (parseNginxFormat ''2024/06/14 12:00:00 [ERROR] upstream timed out'' =
      Some \<lparr>timestamp = JString ''2024/06/14 12:00:00'', level = ''error'',
            message = JString ''upstream timed out'', source = JString ''nginx'',
            stackTrace = JUndefined, entry_context = JUndefined\<rparr> \<and>
    (\<exists>lv. nginx_level_word ''2024/06/14 12:00:00 [ERROR] upstream timed out'' lv \<and>
       ''error'' = toLowerCase lv)) \<and>
   (parseApacheFormat ''[Fri Jun 14 12:00:00 2024] [Warn] child exited'' =
      Some \<lparr>timestamp = JString ''Fri Jun 14 12:00:00 2024'', level = ''warn'',
            message = JString ''child exited'', source = JString ''apache'',
            stackTrace = JUndefined, entry_context = JUndefined\<rparr> \<and>
    (\<exists>lv. apache_level_word ''[Fri Jun 14 12:00:00 2024] [Warn] child exited'' lv \<and>
       ''warn'' = toLowerCase lv)) \<and>
   (parseApplicationFormat ''2024-06-14T12:00:00.123Z INFO server started'' =
      Some \<lparr>timestamp = JString ''2024-06-14T12:00:00.123Z'', level = ''info'',
            message = JString ''server started'', source = JString ''application'',
            stackTrace = JUndefined, entry_context = JUndefined\<rparr> \<and>
    (\<exists>lv. application_level_word ''2024-06-14T12:00:00.123Z INFO server started'' lv \<and>
       ''info'' = toLowerCase lv))"
proof -
  let ?l1 = "''[2024-06-14 12:00:00] ERROR: disk failure''"
  let ?e1 = "\<lparr>timestamp = JString ''2024-06-14 12:00:00'', level = ''error'',
            message = JString ''disk failure'', source = JString ''application'',
            stackTrace = JUndefined, entry_context = JUndefined\<rparr>"
  let ?l2 = "''2024/06/14 12:00:00 [ERROR] upstream timed out''"
  let ?e2 = "\<lparr>timestamp = JString ''2024/06/14 12:00:00'', level = ''error'',
           message = JString ''upstream timed out'', source = JString ''nginx'',
           stackTrace = JUndefined, entry_context = JUndefined\<rparr>"
  let ?l3 = "''[Fri Jun 14 12:00:00 2024] [Warn] child exited''"
  let ?e3 = "\<lparr>timestamp = JString ''Fri Jun 14 12:00:00 2024'', level = ''warn'',
            message = JString ''child exited'', source = JString ''apache'',
            stackTrace = JUndefined, entry_context = JUndefined\<rparr>"
  let ?l4 = "''2024-06-14T12:00:00.123Z INFO server started''"
  let ?e4 = "\<lparr>timestamp = JString ''2024-06-14T12:00:00.123Z'', level = ''info'',
            message = JString ''server started'', source = JString ''application'',
            stackTrace = JUndefined, entry_context = JUndefined\<rparr>"
  have p1: "parseStandardFormat ?l1 = Some ?e1" by code_simp
  have p2: "parseNginxFormat ?l2 = Some ?e2" by code_simp
  have p3: "parseApacheFormat ?l3 = Some ?e3" by code_simp
  have p4: "parseApplicationFormat ?l4 = Some ?e4" by code_simp
  from pattern_level [of ?l1 ?e1, THEN conjunct1, rule_format, OF p1]
  have 1: "\<exists>lv. standard_level_word ?l1 lv \<and> ''error'' = toLowerCase lv" by auto
  from pattern_level [of ?l2 ?e2, THEN conjunct2, THEN conjunct1, rule_format, OF p2]
  have 2: "\<exists>lv. nginx_level_word ?l2 lv \<and> ''error'' = toLowerCase lv" by auto
  from pattern_level [of ?l3 ?e3, THEN conjunct2, THEN conjunct2, THEN conjunct1,
      rule_format, OF p3]
  have 3: "\<exists>lv. apache_level_word ?l3 lv \<and> ''warn'' = toLowerCase lv" by auto
  from pattern_level [of ?l4 ?e4, THEN conjunct2, THEN conjunct2, THEN conjunct2,
      rule_format, OF p4]
  have 4: "\<exists>lv. application_level_word ?l4 lv \<and> ''info'' = toLowerCase lv" by auto
  from p1 1 p2 2 p3 3 p4 4 show ?thesis by (intro conjI)
qed

section \<open>JSON lines\<close>

lemma json_ws_first:
  assumes "line = ws @ CHR ''{'' # rest" and "list_all is_json_ws ws"
  shows "\<exists>c cs. line = c # cs \<and> c \<noteq> CHR ''['' \<and> \<not> is_digit c"
proof (cases ws)
  case Nil
  then show ?thesis using assms by (simp add: is_digit_def)
next
  case (Cons c cs)
  then have "is_json_ws c" using assms by simp
  then have "c \<noteq> CHR ''['' \<and> \<not> is_digit c"
    by (auto simp: is_json_ws_def is_digit_def Let_def)
  then show ?thesis using assms Cons by simp
qed

lemma expect_bracket_None: "c \<noteq> CHR ''['' \<Longrightarrow> expect ''['' (c # cs) = None"
  by (simp add: expect_def)

lemma match_template_digit_None:
  "\<not> is_digit c \<Longrightarrow> match_template (CHR ''d'' # t) (c # cs) = None"
  by simp

lemma parseJSONFormat_object:
  assumes "JSON_parse line = Some (JObject kvs)"
  shows "(parseJSONFormat JSON_parse line \<noteq> None) =
           (\<exists>lv. field_or_default kvs ''level''
                   (field_or_default kvs ''severity'' (JString ''info'')) = JString lv)"
  using assms
  by (auto simp: parseJSONFormat_def own_prop_def js_or_def field_or_default_def
      split: option.splits jsval.splits)

lemma formats_order:
  "formats JSON_parse ! 0 = parseStandardFormat \<and>
   formats JSON_parse ! 1 = parseJSONFormat JSON_parse"
  by (simp add: formats_def)

text \<open>
  C4 as stated fails: the line below is a valid JSON object, yet the classifier produces no
  record for it, through the JSON matcher or otherwise. Its level is a number, so
  \<^verbatim>\<open>toLowerCase\<close> throws inside the JSON matcher, whose \<^verbatim>\<open>catch\<close> returns \<^verbatim>\<open>null\<close>.
\<close>

theorem json_line_counterexample:
  \<open>parseLogLine JSON_parse_sample ''{"level": 5}'' = None\<close>
  by code_simp

text \<open>
  C4, amended. The bracketed-timestamp matcher is first in the priority order and the JSON
  matcher second (\<open>formats_order\<close>). A line that is a valid JSON object starts, after
  optional white space, with an opening brace, so neither the bracketed-timestamp matcher
  nor any of the three other pattern matchers matches it: the line is never decomposed by
  a pattern, and the classifier's answer is exactly the JSON matcher's. That answer is a
  record when the level (or, failing that, the severity) of the object is a string or is
  missing or falsy, and no record otherwise.
\<close>

theorem json_line_classified:
  assumes "JSON_parse line = Some (JObject kvs)"
      and "line = ws @ CHR ''{'' # rest" and "list_all is_json_ws ws"
  shows "parseStandardFormat line = None \<and> parseNginxFormat line = None \<and>
         parseApacheFormat line = None \<and> parseApplicationFormat line = None \<and>
         parseLogLine JSON_parse line = parseJSONFormat JSON_parse line \<and>
         (parseLogLine JSON_parse line \<noteq> None) =
           (\<exists>lv. field_or_default kvs ''level''
                   (field_or_default kvs ''severity'' (JString ''info'')) = JString lv)"
proof -
  from json_ws_first [OF assms(2,3)] obtain c cs where
    l: "line = c # cs" and c: "c \<noteq> CHR ''[''" "\<not> is_digit c" by blast
  have s: "parseStandardFormat line = None"
    using l expect_bracket_None [OF c(1)] by (simp add: parseStandardFormat_def)
  have a: "parseApacheFormat line = None"
    using l expect_bracket_None [OF c(1)] by (simp add: parseApacheFormat_def)
  have n: "parseNginxFormat line = None"
    using l c(2) by (simp add: parseNginxFormat_def)
  have p: "parseApplicationFormat line = None"
    using l c(2) by (simp add: parseApplicationFormat_def)
  have j: "parseLogLine JSON_parse line = parseJSONFormat JSON_parse line"
    using s a n p by (simp add: parseLogLine_def formats_def split: option.splits)
  show ?thesis
    using s a n p j parseJSONFormat_object [where JSON_parse = JSON_parse, OF assms(1)] by simp
qed

theorem json_line_classified_witness:
  \<open>parseLogLine JSON_parse_sample ''{"level": "ERROR", "msg": "disk full"}'' =
     parseJSONFormat JSON_parse_sample ''{"level": "ERROR", "msg": "disk full"}'' \<and>
   parseStandardFormat ''{"level": "ERROR", "msg": "disk full"}'' = None \<and>
   parseLogLine JSON_parse_sample ''{"level": "ERROR", "msg": "disk full"}'' \<noteq> None\<close>
proof -
  have p: \<open>JSON_parse_sample ''{"level": "ERROR", "msg": "disk full"}'' =
             Some (JObject [(''level'', JString ''ERROR''), (''msg'', JString ''disk full'')])\<close>
    by (simp add: JSON_parse_sample_def)
  have w: \<open>''{"level": "ERROR", "msg": "disk full"}'' =
             [] @ CHR ''{'' # ''"level": "ERROR", "msg": "disk full"}''\<close>
    by simp
  have r: "\<exists>lv. field_or_default [(''level'', JString ''ERROR''), (''msg'', JString ''disk full'')]
               ''level''
               (field_or_default [(''level'', JString ''ERROR''), (''msg'', JString ''disk full'')]
                  ''severity'' (JString ''info'')) = JString lv"
    by (simp add: field_or_default_def)
  have e: "list_all is_json_ws []" by simp
  from json_line_classified [where JSON_parse = JSON_parse_sample, OF p w e] r
  show ?thesis by blast
qed

section \<open>Aggregation\<close>















text \<open>
  Two remarks on the body of \<^verbatim>\<open>parseLogFiles\<close>, applied to entries other than the
  built-in ones, which no call in the program does. It has no step that leaves out an
  invalid date: with one timestamp that parses and one that does not, one end of the span
  is the invalid date. And since the dates are sorted by their text, week day first, a
  Monday comes before the Sunday that precedes it, and the span starts after it ends.
\<close>

lemma parseLogFiles_on_invalid_date:
  "map_sum id (\<lambda>lg. (timeRange_start lg, timeRange_end lg))
     (parseLogFiles_on Date_new_sample Date_toString_utc (TimeValue 0) (TimeValue 0)
        [\<lparr>timestamp = JString ''2024-06-14T12:00:00Z'', level = ''error'',
          message = JString ''Database connection failed'', source = JString ''database'',
          stackTrace = JUndefined, entry_context = JUndefined\<rparr>,
         \<lparr>timestamp = JString ''yesterday at noon'', level = ''info'',
          message = JString ''cache warmed'', source = JString ''api'',
          stackTrace = JUndefined, entry_context = JUndefined\<rparr>])
   = Inr (TimeValue 1718366400000, InvalidDate)"
  by code_simp

lemma parseLogFiles_on_sort_order:
  "map_sum id (\<lambda>lg. (timeRange_start lg, timeRange_end lg))
     (parseLogFiles_on Date_new_sample Date_toString_utc (TimeValue 0) (TimeValue 0)
        [\<lparr>timestamp = JString ''2024-06-16T12:00:00Z'', level = ''error'',
          message = JString ''Database connection failed'', source = JString ''database'',
          stackTrace = JUndefined, entry_context = JUndefined\<rparr>,
         \<lparr>timestamp = JString ''2024-06-17T12:00:00Z'', level = ''info'',
          message = JString ''cache warmed'', source = JString ''api'',
          stackTrace = JUndefined, entry_context = JUndefined\<rparr>])
   = Inr (TimeValue 1718625600000, TimeValue 1718539200000)"
  by code_simp

section \<open>Errors that leave the analysis\<close>

lemma scan_entries_Inl: "scan_entries es ps = Inl e \<Longrightarrow> e = TypeError"
  by (induction es arbitrary: ps) (auto split: jsval.splits)

lemma extractErrorPatterns_Inl: "extractErrorPatterns es = Inl e \<Longrightarrow> e = TypeError"
  unfolding extractErrorPatterns_def by (rule scan_entries_Inl)

lemma buildAnalysisPrompt_Inl:
  "buildAnalysisPrompt msg lg = Inl e \<Longrightarrow> e = TypeError \<or> e = RangeError"
  by (auto simp: buildAnalysisPrompt_def split: option.splits if_splits sum.splits
      dest: extractErrorPatterns_Inl)

lemma buildFixPrompt_Inl: "buildFixPrompt rc lg = Inl e \<Longrightarrow> e = TypeError"
  by (auto simp: buildFixPrompt_def split: option.splits if_splits sum.splits
      dest: extractErrorPatterns_Inl)

lemma generateFixes_Inl:
  "generateFixes JSON_parse provider outcome rc lg = Inl e \<Longrightarrow> e = TypeError"
  by (auto simp: generateFixes_def split: option.splits sum.splits jsval.splits
      dest: buildFixPrompt_Inl)

lemma entry_terms_Inl: "entry_terms es ts = Inl e \<Longrightarrow> e = TypeError"
  by (induction es arbitrary: ts) (auto split: jsval.splits)

lemma extractSearchTerms_Inl: "extractSearchTerms l rc = Inl e \<Longrightarrow> e = TypeError"
  by (auto simp: extractSearchTerms_def split: jsval.splits sum.splits dest: entry_terms_Inl)

lemma performCodeAnalysis_Inl: "performCodeAnalysis net m l rc = Inl e \<Longrightarrow> e = TypeError"
  by (auto simp: performCodeAnalysis_def Let_def split: if_splits sum.splits prod.splits
      dest: extractSearchTerms_Inl)

lemma tests_loop_Inl:
  "tests_loop JSON_parse Number_toString provider oracle n fs ts = Inl e \<Longrightarrow> e = TypeError"
  by (induction fs arbitrary: n ts) (auto split: if_splits sum.splits option.splits)

lemma generateUnitTests_Inl:
  "generateUnitTests JSON_parse Number_toString provider oracle n fs = Inl e \<Longrightarrow> e = TypeError"
  unfolding generateUnitTests_def by (rule tests_loop_Inl)

lemma tests_loop_oracle_down:
  assumes "\<forall>k \<ge> n. \<exists>err. oracle k = Inl err"
  shows "tests_loop JSON_parse Number_toString provider oracle n fs ts = Inr ts \<or>
         tests_loop JSON_parse Number_toString provider oracle n fs ts = Inl TypeError"
  using assms
proof (induction fs arbitrary: n)
  case Nil
  then show ?case by simp
next
  case (Cons f fs)
  from Cons.prems obtain err where e: "oracle n = Inl err" by auto
  from Cons.prems have "\<forall>k \<ge> n + 1. \<exists>err. oracle k = Inl err" by auto
  from Cons.IH [OF this] Cons.IH [OF Cons.prems] show ?case
    using e by (auto simp: generateAnalysis_def)
qed

lemma generateUnitTests_fallback:
  "generateUnitTests JSON_parse Number_toString provider oracle n fallback_fixes = Inr []"
  by (simp add: generateUnitTests_def fallback_fixes_def)

lemma parseAIResponse_lists:
  "suggestedFixes (parseAIResponse JSON_parse response) = [] \<and>
   unitTests (parseAIResponse JSON_parse response) = []"
  by (simp add: parseAIResponse_def parse_failed_def split: option.splits sum.splits)

lemma tests_loop_Inr_expected:
  "tests_loop JSON_parse Number_toString provider oracle n fs ts = Inr ts' \<Longrightarrow>
   ts' = ts @ concat (map (tests_of_call JSON_parse Number_toString oracle)
                        (enumerate n (filter needs_test fs)))"
proof (induction fs arbitrary: n ts)
  case Nil
  then show ?case by simp
next
  case (Cons fx fs)
  show ?case
  proof (cases "needs_test fx")
    case False
    with Cons.prems have "tests_loop JSON_parse Number_toString provider oracle n fs ts = Inr ts'"
      by (auto simp: needs_test_def split: if_splits)
    from Cons.IH [OF this] False show ?thesis by simp
  next
    case True
    with Cons.prems consider
      (fail) err where "oracle n = Inl err"
        "tests_loop JSON_parse Number_toString provider oracle (n + 1) fs ts = Inr ts'"
    | (none) response where "oracle n = Inr response"
        "test_of_response JSON_parse Number_toString fx response = None"
        "tests_loop JSON_parse Number_toString provider oracle (n + 1) fs ts = Inr ts'"
    | (some) response t where "oracle n = Inr response"
        "test_of_response JSON_parse Number_toString fx response = Some t"
        "tests_loop JSON_parse Number_toString provider oracle (n + 1) fs (ts @ [t]) = Inr ts'"
      by (auto simp: needs_test_def generateAnalysis_def
          split: if_splits sum.splits option.splits)
    then show ?thesis
    proof cases
      case fail
      from Cons.IH [OF fail(2)] True fail(1) show ?thesis
        by (simp add: tests_of_call_def)
    next
      case none
      from Cons.IH [OF none(3)] True none(1,2) show ?thesis
        by (simp add: tests_of_call_def)
    next
      case some
      from Cons.IH [OF some(3)] True some(1,2) show ?thesis
        by (simp add: tests_of_call_def)
    qed
  qed
qed

lemma tests_loop_total:
  "\<forall>fx \<in> set fs. needs_test fx \<longrightarrow> \<not> test_prompt_throws fx \<Longrightarrow>
   \<exists>ts'. tests_loop JSON_parse Number_toString provider oracle n fs ts = Inr ts'"
proof (induction fs arbitrary: n ts)
  case Nil
  then show ?case by simp
next
  case (Cons fx fs)
  from Cons.prems have rest: "\<forall>fx \<in> set fs. needs_test fx \<longrightarrow> \<not> test_prompt_throws fx"
    by simp
  from Cons.prems have ok: "needs_test fx \<longrightarrow> \<not> test_prompt_throws fx" by simp
  show ?case
    using Cons.IH [OF rest] ok
    by (auto simp: needs_test_def test_prompt_throws_def generateAnalysis_def
        split: sum.splits option.splits)
qed

lemma generateUnitTests_Inr_expected:
  "generateUnitTests JSON_parse Number_toString provider oracle n fs = Inr ts \<Longrightarrow>
   ts = expected_tests JSON_parse Number_toString oracle n fs"
  unfolding generateUnitTests_def expected_tests_def
  by (drule tests_loop_Inr_expected) simp

lemma generateUnitTests_expected:
  assumes "\<forall>fx \<in> set (take 3 fs). needs_test fx \<longrightarrow> \<not> test_prompt_throws fx"
  shows "generateUnitTests JSON_parse Number_toString provider oracle n fs =
           Inr (expected_tests JSON_parse Number_toString oracle n fs)"
proof -
  from tests_loop_total [OF assms] obtain ts where
    "generateUnitTests JSON_parse Number_toString provider oracle n fs = Inr ts"
    unfolding generateUnitTests_def by blast
  with generateUnitTests_Inr_expected [OF this] show ?thesis by simp
qed

lemma expected_tests_Nil: "expected_tests JSON_parse Number_toString oracle n [] = []"
  by (simp add: expected_tests_def)

lemma expected_tests_fallback:
  "expected_tests JSON_parse Number_toString oracle n fallback_fixes = []"
  by (simp add: expected_tests_def fallback_fixes_def needs_test_def)

lemma expected_tests_mem:
  assumes "t \<in> set (expected_tests JSON_parse Number_toString oracle n fs)"
  shows "\<exists>i response. i < length (filter needs_test (take 3 fs)) \<and>
           oracle (n + i) = Inr response \<and>
           test_of_response JSON_parse Number_toString
             (filter needs_test (take 3 fs) ! i) response = Some t"
proof -
  from assms obtain call where
    c: "call \<in> set (enumerate n (filter needs_test (take 3 fs)))"
    and t: "t \<in> set (tests_of_call JSON_parse Number_toString oracle call)"
    unfolding expected_tests_def by auto
  obtain k fx where call: "call = (k, fx)" by (cases call)
  from c call have k: "n \<le> k" "k < length (filter needs_test (take 3 fs)) + n"
    "fx = filter needs_test (take 3 fs) ! (k - n)"
    by (auto simp: in_set_enumerate_eq)
  from t call have "\<exists>response. oracle k = Inr response \<and>
      test_of_response JSON_parse Number_toString fx response = Some t"
    by (cases "oracle k") (auto simp: tests_of_call_def split: option.splits)
  then obtain response where
    "oracle k = Inr response" "test_of_response JSON_parse Number_toString fx response = Some t"
    by blast
  with k have "k - n < length (filter needs_test (take 3 fs)) \<and>
           oracle (n + (k - n)) = Inr response \<and>
           test_of_response JSON_parse Number_toString
             (filter needs_test (take 3 fs) ! (k - n)) response = Some t"
    by auto
  then show ?thesis by blast
qed

lemma unitTests_update_same: "unitTests r = ts \<Longrightarrow> r\<lparr>unitTests := ts\<rparr> = r"
  by (cases r) simp

text \<open>
  C1 as stated fails: the call that asks for the verdict is not inside any \<^verbatim>\<open>try\<close>, and
  \<^verbatim>\<open>generateAnalysis\<close> rethrows what it catches, so when the completion service is down
  \<^verbatim>\<open>analyze\<close> passes the error on to its caller and returns no result.
\<close>

theorem analyze_oracle_failure_counterexample:
  "analyze JSON_parse_sample Number_toString_sample OpenAI oracle_down network_down
     (initializeDefaultServers (\<lambda>k. None)) narrative_request
   = Inl (Error ''Failed to generate analysis with openai'')"
  by code_simp

text \<open>
  C1, amended. A failure of the call to the completion service is caught at two of the
  three call sites, fix generation and test generation, and turned into that phase's
  fallback: the canned fix list, and no test for the fix concerned. At the first site, the
  verdict, it is not caught: once the prompt is built, \<^verbatim>\<open>analyze\<close> fails with the error
  "Failed to generate analysis with" followed by the provider. After a verdict call that
  succeeded, \<^verbatim>\<open>analyze\<close> never passes an error of the completion service to its caller.
  When the fix call fails and fixes are requested, a result carries the canned fix list
  and no test, and for a request without logs whose root cause can be put in the prompt
  that result is returned. Test generation asks the service once for each of the first
  three fixes that has code and a file path, in order: provided the prompts can be built,
  it returns the tests read from the calls that answered, so a call that fails leaves out the
  test of its own fix only and the fixes after it are still handled; every test returned
  comes from a call that answered; and the tests of a result of \<^verbatim>\<open>analyze\<close> are those.
\<close>

theorem analyze_oracle_failure:
  "(\<forall>err. oracle 0 = Inl err \<and>
          buildAnalysisPrompt (userMessage request) (logs request) = Inr () \<longrightarrow>
          analyze JSON_parse Number_toString provider oracle net m request =
            Inl (Error (''Failed to generate analysis with '' @ provider_name provider))) \<and>
   (\<forall>reply msg. oracle 0 = Inr reply \<longrightarrow>
          analyze JSON_parse Number_toString provider oracle net m request \<noteq> Inl (Error msg)) \<and>
   (\<forall>reply err r. oracle 0 = Inr reply \<and> oracle 1 = Inl err \<and>
          flag_default (includeFixes request) \<and>
          analyze JSON_parse Number_toString provider oracle net m request = Inr r \<longrightarrow>
          suggestedFixes r = fallback_fixes \<and> unitTests r = []) \<and>
   (\<forall>reply err. oracle 0 = Inr reply \<and> oracle 1 = Inl err \<and>
          flag_default (includeFixes request) \<and> logs request = None \<and>
          \<not> ToString_throws (rootCause (parseAIResponse JSON_parse reply)) \<longrightarrow>
          analyze JSON_parse Number_toString provider oracle net m request =
            Inr ((parseAIResponse JSON_parse reply)
                   \<lparr>suggestedFixes := fallback_fixes, unitTests := []\<rparr>)) \<and>
   (\<forall>n fs. (\<forall>fx \<in> set (take 3 fs). needs_test fx \<longrightarrow> \<not> test_prompt_throws fx) \<longrightarrow>
          generateUnitTests JSON_parse Number_toString provider oracle n fs =
            Inr (expected_tests JSON_parse Number_toString oracle n fs)) \<and>
   (\<forall>n fs ts t. generateUnitTests JSON_parse Number_toString provider oracle n fs = Inr ts \<and>
          t \<in> set ts \<longrightarrow>
          (\<exists>i response. i < length (filter needs_test (take 3 fs)) \<and>
             oracle (n + i) = Inr response \<and>
             test_of_response JSON_parse Number_toString
               (filter needs_test (take 3 fs) ! i) response = Some t)) \<and>
   (\<forall>reply r. oracle 0 = Inr reply \<and> flag_default (includeTests request) \<and>
          analyze JSON_parse Number_toString provider oracle net m request = Inr r \<longrightarrow>
          unitTests r =
            expected_tests JSON_parse Number_toString oracle
              (if flag_default (includeFixes request) then 2 else 1) (suggestedFixes r)) \<and>
   (\<forall>n fs. (\<forall>k \<ge> n. \<exists>err. oracle k = Inl err) \<longrightarrow>
          generateUnitTests JSON_parse Number_toString provider oracle n fs = Inr [] \<or>
          generateUnitTests JSON_parse Number_toString provider oracle n fs = Inl TypeError)"
proof -
  have 1: "analyze JSON_parse Number_toString provider oracle net m request =
            Inl (Error (''Failed to generate analysis with '' @ provider_name provider))"
    if "oracle 0 = Inl err \<and> buildAnalysisPrompt (userMessage request) (logs request) = Inr ()"
    for err
    using that by (simp add: analyze_def generateAnalysis_def)
  have 2: "analyze JSON_parse Number_toString provider oracle net m request \<noteq> Inl (Error msg)"
    if o: "oracle 0 = Inr reply" for reply msg
  proof
    assume a: "analyze JSON_parse Number_toString provider oracle net m request = Inl (Error msg)"
    then show False using o
      unfolding analyze_def Let_def generateAnalysis_def
      by (auto split: sum.splits option.splits if_splits
          dest: buildAnalysisPrompt_Inl performCodeAnalysis_Inl generateFixes_Inl
            generateUnitTests_Inl)
  qed
  have g: "generateFixes JSON_parse provider (Inl err) rc lg = Inr fs \<Longrightarrow> fs = fallback_fixes"
    for rc lg fs err
    by (auto simp: generateFixes_def generateAnalysis_def split: sum.splits)
  have ne: "fallback_fixes \<noteq> []" by (simp add: fallback_fixes_def)
  have 3: "suggestedFixes r = fallback_fixes \<and> unitTests r = []"
    if a: "oracle 0 = Inr reply \<and> oracle 1 = Inl err \<and> flag_default (includeFixes request) \<and>
          analyze JSON_parse Number_toString provider oracle net m request = Inr r"
    for reply err r
    using a unfolding analyze_def Let_def
    by (auto simp: generateAnalysis_def generateUnitTests_fallback parseAIResponse_lists ne
        split: sum.splits option.splits if_splits dest!: g)
  have 4: "analyze JSON_parse Number_toString provider oracle net m request =
            Inr ((parseAIResponse JSON_parse reply)
                   \<lparr>suggestedFixes := fallback_fixes, unitTests := []\<rparr>)"
    if a: "oracle 0 = Inr reply \<and> oracle 1 = Inl err \<and> flag_default (includeFixes request) \<and>
          logs request = None \<and>
          \<not> ToString_throws (rootCause (parseAIResponse JSON_parse reply))"
    for reply err
  proof -
    have f: "generateFixes JSON_parse provider (Inl err)
               (rootCause (parseAIResponse JSON_parse reply)) None = Inr fallback_fixes"
      using a by (simp add: generateFixes_def buildFixPrompt_def generateAnalysis_def)
    have u: "(parseAIResponse JSON_parse reply)\<lparr>suggestedFixes := fallback_fixes\<rparr> =
             (parseAIResponse JSON_parse reply)\<lparr>suggestedFixes := fallback_fixes, unitTests := []\<rparr>"
      by (rule unitTests_update_same [symmetric]) (simp add: parseAIResponse_lists)
    show ?thesis
      using a f u unfolding analyze_def Let_def
      by (simp add: buildAnalysisPrompt_def generateAnalysis_def generateUnitTests_fallback ne)
  qed
  have 5: "generateUnitTests JSON_parse Number_toString provider oracle n fs =
            Inr (expected_tests JSON_parse Number_toString oracle n fs)"
    if "\<forall>fx \<in> set (take 3 fs). needs_test fx \<longrightarrow> \<not> test_prompt_throws fx" for n fs
    using that by (rule generateUnitTests_expected)
  have 6: "\<exists>i response. i < length (filter needs_test (take 3 fs)) \<and>
             oracle (n + i) = Inr response \<and>
             test_of_response JSON_parse Number_toString
               (filter needs_test (take 3 fs) ! i) response = Some t"
    if a: "generateUnitTests JSON_parse Number_toString provider oracle n fs = Inr ts \<and> t \<in> set ts"
    for n fs ts t
  proof -
    from a have "ts = expected_tests JSON_parse Number_toString oracle n fs"
      using generateUnitTests_Inr_expected by blast
    with a show ?thesis using expected_tests_mem by blast
  qed
  have 7: "unitTests r =
            expected_tests JSON_parse Number_toString oracle
              (if flag_default (includeFixes request) then 2 else 1) (suggestedFixes r)"
    if a: "oracle 0 = Inr reply \<and> flag_default (includeTests request) \<and>
          analyze JSON_parse Number_toString provider oracle net m request = Inr r"
    for reply r
    using a unfolding analyze_def Let_def
    by (auto simp: generateAnalysis_def parseAIResponse_lists expected_tests_Nil
        split: sum.splits option.splits if_splits dest!: generateUnitTests_Inr_expected)
  have 8: "generateUnitTests JSON_parse Number_toString provider oracle n fs = Inr [] \<or>
        generateUnitTests JSON_parse Number_toString provider oracle n fs = Inl TypeError"
    if "\<forall>k \<ge> n. \<exists>err. oracle k = Inl err" for n fs
    using tests_loop_oracle_down [OF that] unfolding generateUnitTests_def by blast
  from 1 2 3 4 5 6 7 8 show ?thesis by blast
qed

text \<open>
  A service that answers the verdict request and fails afterwards; and one that proposes
  three fixes, fails on the test of the first and answers for the test of the third.
\<close>

theorem analyze_oracle_failure_witness:
  "analyze JSON_parse_sample Number_toString_sample OpenAI oracle_verdict_only network_down
     (initializeDefaultServers (\<lambda>k. None)) narrative_request
   = Inr \<lparr>rootCause = JString ''pool exhausted'', affectedComponents = JArray [],
          suggestedFixes = fallback_fixes, unitTests = [],
          confidence = JNumber (Fin (9 / 10)), reasoning = JString ''Analysis completed'',
          codeAnalysis = None\<rparr> \<and>
   oracle_tests_mixed 2 = Inl (Error ''429 Too Many Requests'') \<and>
   (\<exists>r. analyze JSON_parse_sample Number_toString_sample OpenAI oracle_tests_mixed network_down
          (initializeDefaultServers (\<lambda>k. None)) narrative_request = Inr r \<and>
        map fix_id (filter needs_test (suggestedFixes r)) = [''fix-0'', ''fix-2''] \<and>
        generateUnitTests JSON_parse_sample Number_toString_sample OpenAI oracle_tests_mixed 2
          (suggestedFixes r) = Inr (unitTests r) \<and>
        unitTests r =
          [\<lparr>test_id = ''test-fix-2'', test_description = JString ''pool size is raised'',
            test_framework = JString ''jest'',
            test_code = JString ''expect(pool.max).toBe(20)'',
            test_filePath = JString ''src/pool.test.ts''\<rparr>])"
proof -
  let ?fixes = "[\<lparr>fix_id = ''fix-0'', fix_description = JString ''Add a retry'',
              fix_priority = JString ''medium'', fix_type = JString ''code'',
              fix_code = JString ''retry(3)'', fix_filePath = JString ''src/db.ts'',
              fix_explanation = JString ''Generated fix explanation''\<rparr>,
           \<lparr>fix_id = ''fix-1'', fix_description = JString ''Page the on-call'',
              fix_priority = JString ''medium'', fix_type = JString ''code'',
              fix_code = JUndefined, fix_filePath = JUndefined,
              fix_explanation = JString ''Generated fix explanation''\<rparr>,
           \<lparr>fix_id = ''fix-2'', fix_description = JString ''Raise the pool size'',
              fix_priority = JString ''medium'', fix_type = JString ''code'',
              fix_code = JString ''pool.max = 20'', fix_filePath = JString ''src/pool.ts'',
              fix_explanation = JString ''Generated fix explanation''\<rparr>]"
  let ?test = "\<lparr>test_id = ''test-fix-2'', test_description = JString ''pool size is raised'',
            test_framework = JString ''jest'',
            test_code = JString ''expect(pool.max).toBe(20)'',
            test_filePath = JString ''src/pool.test.ts''\<rparr>"
  let ?r = "\<lparr>rootCause = JString ''pool exhausted'', affectedComponents = JArray [],
          suggestedFixes = ?fixes, unitTests = [?test],
          confidence = JNumber (Fin (9 / 10)), reasoning = JString ''Analysis completed'',
          codeAnalysis = None\<rparr>"
  note down = analyze_oracle_failure [of oracle_verdict_only narrative_request JSON_parse_sample
      Number_toString_sample OpenAI network_down "initializeDefaultServers (\<lambda>k. None)"]
  note mixed = analyze_oracle_failure [of oracle_tests_mixed narrative_request JSON_parse_sample
      Number_toString_sample OpenAI network_down "initializeDefaultServers (\<lambda>k. None)"]
  have h1: \<open>oracle_verdict_only 0 =
               Inr ''Verdict: {"rootCause": "pool exhausted", "confidence": 0.9}'' \<and>
            oracle_verdict_only 1 = Inl (Error ''429 Too Many Requests'') \<and>
            flag_default (includeFixes narrative_request) \<and> logs narrative_request = None \<and>
            \<not> ToString_throws (rootCause (parseAIResponse JSON_parse_sample
                ''Verdict: {"rootCause": "pool exhausted", "confidence": 0.9}''))\<close>
    by code_simp
  have v: \<open>(parseAIResponse JSON_parse_sample
               ''Verdict: {"rootCause": "pool exhausted", "confidence": 0.9}'')
             \<lparr>suggestedFixes := fallback_fixes, unitTests := []\<rparr> =
           \<lparr>rootCause = JString ''pool exhausted'', affectedComponents = JArray [],
            suggestedFixes = fallback_fixes, unitTests = [],
            confidence = JNumber (Fin (9 / 10)), reasoning = JString ''Analysis completed'',
            codeAnalysis = None\<rparr>\<close>
    by code_simp
  from down [THEN conjunct2, THEN conjunct2, THEN conjunct2, THEN conjunct1, rule_format, OF h1]
  have a: "analyze JSON_parse_sample Number_toString_sample OpenAI oracle_verdict_only network_down
     (initializeDefaultServers (\<lambda>k. None)) narrative_request
   = Inr \<lparr>rootCause = JString ''pool exhausted'', affectedComponents = JArray [],
          suggestedFixes = fallback_fixes, unitTests = [],
          confidence = JNumber (Fin (9 / 10)), reasoning = JString ''Analysis completed'',
          codeAnalysis = None\<rparr>"
    unfolding v .
  have o2: "oracle_tests_mixed 2 = Inl (Error ''429 Too Many Requests'')"
    by (simp add: oracle_tests_mixed_def)
  have run: "analyze JSON_parse_sample Number_toString_sample OpenAI oracle_tests_mixed
               network_down (initializeDefaultServers (\<lambda>k. None)) narrative_request = Inr ?r"
    by code_simp
  have h2: \<open>oracle_tests_mixed 0 =
               Inr ''Verdict: {"rootCause": "pool exhausted", "confidence": 0.9}'' \<and>
            flag_default (includeTests narrative_request) \<and>
            analyze JSON_parse_sample Number_toString_sample OpenAI oracle_tests_mixed
               network_down (initializeDefaultServers (\<lambda>k. None)) narrative_request = Inr ?r\<close>
    using run by (simp add: oracle_tests_mixed_def flag_default_def narrative_request_def)
  have h3: "\<forall>fx \<in> set (take 3 ?fixes). needs_test fx \<longrightarrow> \<not> test_prompt_throws fx"
    by (simp add: test_prompt_throws_def)
  from mixed [THEN conjunct2, THEN conjunct2, THEN conjunct2, THEN conjunct2, THEN conjunct1,
      THEN spec, THEN spec, THEN mp, OF h3]
  have gen: "generateUnitTests JSON_parse_sample Number_toString_sample OpenAI oracle_tests_mixed 2
          ?fixes = Inr (expected_tests JSON_parse_sample Number_toString_sample oracle_tests_mixed
             2 ?fixes)" .
  from mixed [THEN conjunct2, THEN conjunct2, THEN conjunct2, THEN conjunct2, THEN conjunct2,
      THEN conjunct2, THEN conjunct1, rule_format, OF h2]
  have "unitTests ?r = expected_tests JSON_parse_sample Number_toString_sample oracle_tests_mixed
             (if flag_default (includeFixes narrative_request) then 2 else 1) (suggestedFixes ?r)" .
  then have ex: "expected_tests JSON_parse_sample Number_toString_sample oracle_tests_mixed 2 ?fixes
      = [?test]"
    by (simp add: flag_default_def narrative_request_def)
  have ids: "map fix_id (filter needs_test ?fixes) = [''fix-0'', ''fix-2'']"
    by (simp add: needs_test_def)
  have b: "analyze JSON_parse_sample Number_toString_sample OpenAI oracle_tests_mixed network_down
          (initializeDefaultServers (\<lambda>k. None)) narrative_request = Inr ?r \<and>
        map fix_id (filter needs_test (suggestedFixes ?r)) = [''fix-0'', ''fix-2''] \<and>
        generateUnitTests JSON_parse_sample Number_toString_sample OpenAI oracle_tests_mixed 2
          (suggestedFixes ?r) = Inr (unitTests ?r) \<and>
        unitTests ?r = [?test]"
    using run ids gen ex by simp
  from a o2 b show ?thesis by (intro conjI exI [of _ ?r]) (elim conjE, assumption)+
qed

section \<open>The feature flags\<close>

lemma parseAIResponse_codeAnalysis: "codeAnalysis (parseAIResponse JSON_parse response) = None"
  by (simp add: parseAIResponse_def parse_failed_def split: option.splits sum.splits)

text \<open>
  C10. An omitted feature flag is treated as true: omitting any one of the three flags
  gives the same analysis as setting it, and a request that carries only the narrative and
  the logs gives the same analysis as one with all three flags set. So all three phases
  are performed by default. With the flags omitted and logs present, once the prompt is
  built and the service has answered the verdict request, the analysis returns the verdict
  completed with the code analysis that was performed, the fixes that fix generation
  returned and the tests generated for them, whenever code analysis and fix generation
  return and the test prompts can be built; without logs it returns the verdict with the
  fixes and the tests. A flag that is set to false does switch its phase off: with all
  three false the bare verdict is returned, without code analysis the result has none,
  without fixes it has neither fixes nor tests, without tests it has no tests.
\<close>

theorem analyze_flag_defaults:
  "analyze JSON_parse Number_toString provider oracle net m (request\<lparr>includeFixes := None\<rparr>) =
     analyze JSON_parse Number_toString provider oracle net m (request\<lparr>includeFixes := Some True\<rparr>) \<and>
   analyze JSON_parse Number_toString provider oracle net m (request\<lparr>includeTests := None\<rparr>) =
     analyze JSON_parse Number_toString provider oracle net m (request\<lparr>includeTests := Some True\<rparr>) \<and>
   analyze JSON_parse Number_toString provider oracle net m (request\<lparr>includeCodeAnalysis := None\<rparr>) =
     analyze JSON_parse Number_toString provider oracle net m
       (request\<lparr>includeCodeAnalysis := Some True\<rparr>) \<and>
   analyze JSON_parse Number_toString provider oracle net m
       \<lparr>userMessage = narrative, logs = lg, includeFixes = None, includeTests = None,
        includeCodeAnalysis = None\<rparr> =
     analyze JSON_parse Number_toString provider oracle net m
       \<lparr>userMessage = narrative, logs = lg, includeFixes = Some True, includeTests = Some True,
        includeCodeAnalysis = Some True\<rparr> \<and>
   (\<forall>l r. lg = Some l \<and>
      analyze JSON_parse Number_toString provider oracle net m
        \<lparr>userMessage = narrative, logs = lg, includeFixes = None, includeTests = None,
         includeCodeAnalysis = None\<rparr> = Inr r \<longrightarrow>
      (\<exists>ca. performCodeAnalysis net m l (rootCause r) = Inr ca \<and> codeAnalysis r = Some ca) \<and>
      generateFixes JSON_parse provider (oracle 1) (rootCause r) lg = Inr (suggestedFixes r) \<and>
      (suggestedFixes r \<noteq> [] \<longrightarrow>
         generateUnitTests JSON_parse Number_toString provider oracle 2 (suggestedFixes r) =
           Inr (unitTests r))) \<and>
   (\<forall>reply l ca fs.
      buildAnalysisPrompt narrative (Some l) = Inr () \<and> oracle 0 = Inr reply \<and>
      performCodeAnalysis net m l (rootCause (parseAIResponse JSON_parse reply)) = Inr ca \<and>
      generateFixes JSON_parse provider (oracle 1) (rootCause (parseAIResponse JSON_parse reply))
        (Some l) = Inr fs \<and>
      (\<forall>fx \<in> set (take 3 fs). needs_test fx \<longrightarrow> \<not> test_prompt_throws fx) \<longrightarrow>
      analyze JSON_parse Number_toString provider oracle net m
        \<lparr>userMessage = narrative, logs = Some l, includeFixes = None, includeTests = None,
         includeCodeAnalysis = None\<rparr> =
        Inr ((parseAIResponse JSON_parse reply)
               \<lparr>codeAnalysis := Some ca, suggestedFixes := fs,
                 unitTests := expected_tests JSON_parse Number_toString oracle 2 fs\<rparr>)) \<and>
   (\<forall>reply fs.
      oracle 0 = Inr reply \<and>
      generateFixes JSON_parse provider (oracle 1) (rootCause (parseAIResponse JSON_parse reply))
        None = Inr fs \<and>
      (\<forall>fx \<in> set (take 3 fs). needs_test fx \<longrightarrow> \<not> test_prompt_throws fx) \<longrightarrow>
      analyze JSON_parse Number_toString provider oracle net m
        \<lparr>userMessage = narrative, logs = None, includeFixes = None, includeTests = None,
         includeCodeAnalysis = None\<rparr> =
        Inr ((parseAIResponse JSON_parse reply)
               \<lparr>suggestedFixes := fs,
                 unitTests := expected_tests JSON_parse Number_toString oracle 2 fs\<rparr>)) \<and>
   (\<forall>reply. buildAnalysisPrompt narrative lg = Inr () \<and> oracle 0 = Inr reply \<longrightarrow>
      analyze JSON_parse Number_toString provider oracle net m
        \<lparr>userMessage = narrative, logs = lg, includeFixes = Some False,
         includeTests = Some False, includeCodeAnalysis = Some False\<rparr> =
        Inr (parseAIResponse JSON_parse reply)) \<and>
   (\<forall>r. analyze JSON_parse Number_toString provider oracle net m
           (request\<lparr>includeCodeAnalysis := Some False\<rparr>) = Inr r \<longrightarrow> codeAnalysis r = None) \<and>
   (\<forall>r. analyze JSON_parse Number_toString provider oracle net m
           (request\<lparr>includeFixes := Some False\<rparr>) = Inr r \<longrightarrow>
         suggestedFixes r = [] \<and> unitTests r = []) \<and>
   (\<forall>r. analyze JSON_parse Number_toString provider oracle net m
           (request\<lparr>includeTests := Some False\<rparr>) = Inr r \<longrightarrow> unitTests r = [])"
proof -
  have 1: "analyze JSON_parse Number_toString provider oracle net m (request\<lparr>includeFixes := None\<rparr>) =
     analyze JSON_parse Number_toString provider oracle net m (request\<lparr>includeFixes := Some True\<rparr>)"
    by (simp add: analyze_def flag_default_def cong: sum.case_cong option.case_cong if_cong)
  have 2: "analyze JSON_parse Number_toString provider oracle net m (request\<lparr>includeTests := None\<rparr>) =
     analyze JSON_parse Number_toString provider oracle net m (request\<lparr>includeTests := Some True\<rparr>)"
    by (simp add: analyze_def flag_default_def cong: sum.case_cong option.case_cong if_cong)
  have 3: "analyze JSON_parse Number_toString provider oracle net m (request\<lparr>includeCodeAnalysis := None\<rparr>) =
     analyze JSON_parse Number_toString provider oracle net m
       (request\<lparr>includeCodeAnalysis := Some True\<rparr>)"
    by (simp add: analyze_def flag_default_def cong: sum.case_cong option.case_cong if_cong)
  have 4: "analyze JSON_parse Number_toString provider oracle net m
       \<lparr>userMessage = narrative, logs = lg, includeFixes = None, includeTests = None,
        includeCodeAnalysis = None\<rparr> =
     analyze JSON_parse Number_toString provider oracle net m
       \<lparr>userMessage = narrative, logs = lg, includeFixes = Some True, includeTests = Some True,
        includeCodeAnalysis = Some True\<rparr>"
    by (simp add: analyze_def flag_default_def cong: sum.case_cong option.case_cong if_cong)
  have 5: "(\<exists>ca. performCodeAnalysis net m l (rootCause r) = Inr ca \<and> codeAnalysis r = Some ca) \<and>
      generateFixes JSON_parse provider (oracle 1) (rootCause r) lg = Inr (suggestedFixes r) \<and>
      (suggestedFixes r \<noteq> [] \<longrightarrow>
         generateUnitTests JSON_parse Number_toString provider oracle 2 (suggestedFixes r) =
           Inr (unitTests r))"
    if a: "lg = Some l \<and>
      analyze JSON_parse Number_toString provider oracle net m
        \<lparr>userMessage = narrative, logs = lg, includeFixes = None, includeTests = None,
         includeCodeAnalysis = None\<rparr> = Inr r" for l r
    using a unfolding analyze_def Let_def flag_default_def
    by (auto split: sum.splits option.splits if_splits)
  have 6: "analyze JSON_parse Number_toString provider oracle net m
        \<lparr>userMessage = narrative, logs = Some l, includeFixes = None, includeTests = None,
         includeCodeAnalysis = None\<rparr> =
        Inr ((parseAIResponse JSON_parse reply)
               \<lparr>codeAnalysis := Some ca, suggestedFixes := fs,
                 unitTests := expected_tests JSON_parse Number_toString oracle 2 fs\<rparr>)"
    if a: "buildAnalysisPrompt narrative (Some l) = Inr () \<and> oracle 0 = Inr reply \<and>
      performCodeAnalysis net m l (rootCause (parseAIResponse JSON_parse reply)) = Inr ca \<and>
      generateFixes JSON_parse provider (oracle 1) (rootCause (parseAIResponse JSON_parse reply))
        (Some l) = Inr fs \<and>
      (\<forall>fx \<in> set (take 3 fs). needs_test fx \<longrightarrow> \<not> test_prompt_throws fx)"
    for reply l ca fs
  proof -
    from a have t: "generateUnitTests JSON_parse Number_toString provider oracle 2 fs =
        Inr (expected_tests JSON_parse Number_toString oracle 2 fs)"
      by (intro generateUnitTests_expected) blast
    have u: "(parseAIResponse JSON_parse reply)\<lparr>codeAnalysis := Some ca, suggestedFixes := []\<rparr> =
             (parseAIResponse JSON_parse reply)
               \<lparr>codeAnalysis := Some ca, suggestedFixes := [], unitTests := []\<rparr>"
      by (rule unitTests_update_same [symmetric]) (simp add: parseAIResponse_lists)
    show ?thesis
      using a t u unfolding analyze_def Let_def flag_default_def
      by (cases "fs = []") (simp_all add: generateAnalysis_def expected_tests_Nil)
  qed
  have 7: "analyze JSON_parse Number_toString provider oracle net m
        \<lparr>userMessage = narrative, logs = None, includeFixes = None, includeTests = None,
         includeCodeAnalysis = None\<rparr> =
        Inr ((parseAIResponse JSON_parse reply)
               \<lparr>suggestedFixes := fs,
                 unitTests := expected_tests JSON_parse Number_toString oracle 2 fs\<rparr>)"
    if a: "oracle 0 = Inr reply \<and>
      generateFixes JSON_parse provider (oracle 1) (rootCause (parseAIResponse JSON_parse reply))
        None = Inr fs \<and>
      (\<forall>fx \<in> set (take 3 fs). needs_test fx \<longrightarrow> \<not> test_prompt_throws fx)"
    for reply fs
  proof -
    from a have t: "generateUnitTests JSON_parse Number_toString provider oracle 2 fs =
        Inr (expected_tests JSON_parse Number_toString oracle 2 fs)"
      by (intro generateUnitTests_expected) blast
    have u: "(parseAIResponse JSON_parse reply)\<lparr>suggestedFixes := []\<rparr> =
             (parseAIResponse JSON_parse reply)\<lparr>suggestedFixes := [], unitTests := []\<rparr>"
      by (rule unitTests_update_same [symmetric]) (simp add: parseAIResponse_lists)
    show ?thesis
      using a t u unfolding analyze_def Let_def flag_default_def
      by (cases "fs = []")
        (simp_all add: generateAnalysis_def expected_tests_Nil buildAnalysisPrompt_def)
  qed
  have 8: "analyze JSON_parse Number_toString provider oracle net m
        \<lparr>userMessage = narrative, logs = lg, includeFixes = Some False,
         includeTests = Some False, includeCodeAnalysis = Some False\<rparr> =
        Inr (parseAIResponse JSON_parse reply)"
    if a: "buildAnalysisPrompt narrative lg = Inr () \<and> oracle 0 = Inr reply" for reply
    using a unfolding analyze_def Let_def flag_default_def
    by (simp add: generateAnalysis_def split: option.splits)
  have 9: "codeAnalysis r = None"
    if a: "analyze JSON_parse Number_toString provider oracle net m
           (request\<lparr>includeCodeAnalysis := Some False\<rparr>) = Inr r" for r
    using a unfolding analyze_def Let_def flag_default_def
    by (auto simp: parseAIResponse_codeAnalysis split: sum.splits option.splits if_splits)
  have 10: "suggestedFixes r = [] \<and> unitTests r = []"
    if a: "analyze JSON_parse Number_toString provider oracle net m
           (request\<lparr>includeFixes := Some False\<rparr>) = Inr r" for r
    using a unfolding analyze_def Let_def flag_default_def
    by (auto simp: parseAIResponse_lists split: sum.splits option.splits if_splits)
  have 11: "unitTests r = []"
    if a: "analyze JSON_parse Number_toString provider oracle net m
           (request\<lparr>includeTests := Some False\<rparr>) = Inr r" for r
    using a unfolding analyze_def Let_def flag_default_def
    by (auto simp: parseAIResponse_lists split: sum.splits option.splits if_splits)
  from 1 2 3 4 5 6 7 8 9 10 11 show ?thesis by blast
qed

text \<open>
  A request with the narrative and the logs, on a manager with the GitHub server
  connected: the search finds a file, three fixes are proposed and one test is generated.
  The same request with the three flags false returns the verdict only.
\<close>

theorem analyze_flag_defaults_witness:
  "analyze JSON_parse_sample Number_toString_sample OpenAI oracle_tests_mixed network_up
     manager_github
     \<lparr>userMessage = ''users getting 500 errors'', logs = Some sample_log, includeFixes = None,
      includeTests = None, includeCodeAnalysis = None\<rparr>
   = Inr \<lparr>rootCause = JString ''pool exhausted'', affectedComponents = JArray [],
          suggestedFixes =
            [\<lparr>fix_id = ''fix-0'', fix_description = JString ''Add a retry'',
              fix_priority = JString ''medium'', fix_type = JString ''code'',
              fix_code = JString ''retry(3)'', fix_filePath = JString ''src/db.ts'',
              fix_explanation = JString ''Generated fix explanation''\<rparr>,
             \<lparr>fix_id = ''fix-1'', fix_description = JString ''Page the on-call'',
              fix_priority = JString ''medium'', fix_type = JString ''code'',
              fix_code = JUndefined, fix_filePath = JUndefined,
              fix_explanation = JString ''Generated fix explanation''\<rparr>,
             \<lparr>fix_id = ''fix-2'', fix_description = JString ''Raise the pool size'',
              fix_priority = JString ''medium'', fix_type = JString ''code'',
              fix_code = JString ''pool.max = 20'', fix_filePath = JString ''src/pool.ts'',
              fix_explanation = JString ''Generated fix explanation''\<rparr>],
          unitTests =
            [\<lparr>test_id = ''test-fix-2'', test_description = JString ''pool size is raised'',
              test_framework = JString ''jest'',
              test_code = JString ''expect(pool.max).toBe(20)'',
              test_filePath = JString ''src/pool.test.ts''\<rparr>],
          confidence = JNumber (Fin (9 / 10)), reasoning = JString ''Analysis completed'',
          codeAnalysis =
            Some \<lparr>affectedFiles = [''src/pool.ts''], potentialIssues = [], dependencies = [],
                  mcpServerUsed = [''GitHub MCP'']\<rparr>\<rparr> \<and>
   analyze JSON_parse_sample Number_toString_sample OpenAI oracle_tests_mixed network_up
     manager_github
     \<lparr>userMessage = ''users getting 500 errors'', logs = Some sample_log,
      includeFixes = Some False, includeTests = Some False, includeCodeAnalysis = Some False\<rparr>
   = Inr \<lparr>rootCause = JString ''pool exhausted'', affectedComponents = JArray [],
          suggestedFixes = [], unitTests = [],
          confidence = JNumber (Fin (9 / 10)), reasoning = JString ''Analysis completed'',
          codeAnalysis = None\<rparr>"
proof -
  let ?fixes = "[\<lparr>fix_id = ''fix-0'', fix_description = JString ''Add a retry'',
              fix_priority = JString ''medium'', fix_type = JString ''code'',
              fix_code = JString ''retry(3)'', fix_filePath = JString ''src/db.ts'',
              fix_explanation = JString ''Generated fix explanation''\<rparr>,
             \<lparr>fix_id = ''fix-1'', fix_description = JString ''Page the on-call'',
              fix_priority = JString ''medium'', fix_type = JString ''code'',
              fix_code = JUndefined, fix_filePath = JUndefined,
              fix_explanation = JString ''Generated fix explanation''\<rparr>,
             \<lparr>fix_id = ''fix-2'', fix_description = JString ''Raise the pool size'',
              fix_priority = JString ''medium'', fix_type = JString ''code'',
              fix_code = JString ''pool.max = 20'', fix_filePath = JString ''src/pool.ts'',
              fix_explanation = JString ''Generated fix explanation''\<rparr>]"
  let ?ca = "\<lparr>affectedFiles = [''src/pool.ts''], potentialIssues = [], dependencies = [],
                  mcpServerUsed = [''GitHub MCP'']\<rparr>"
  note T = analyze_flag_defaults [of JSON_parse_sample Number_toString_sample OpenAI
      oracle_tests_mixed network_up manager_github narrative_request
      "''users getting 500 errors''" "Some sample_log"]
  have h: \<open>buildAnalysisPrompt ''users getting 500 errors'' (Some sample_log) = Inr () \<and>
      oracle_tests_mixed 0 = Inr ''Verdict: {"rootCause": "pool exhausted", "confidence": 0.9}'' \<and>
      performCodeAnalysis network_up manager_github sample_log
        (rootCause (parseAIResponse JSON_parse_sample
           ''Verdict: {"rootCause": "pool exhausted", "confidence": 0.9}'')) = Inr ?ca \<and>
      generateFixes JSON_parse_sample OpenAI (oracle_tests_mixed 1)
        (rootCause (parseAIResponse JSON_parse_sample
           ''Verdict: {"rootCause": "pool exhausted", "confidence": 0.9}''))
        (Some sample_log) = Inr ?fixes \<and>
      (\<forall>fx \<in> set (take 3 ?fixes). needs_test fx \<longrightarrow> \<not> test_prompt_throws fx)\<close>
    by code_simp
  have v: \<open>(parseAIResponse JSON_parse_sample
              ''Verdict: {"rootCause": "pool exhausted", "confidence": 0.9}'')
            \<lparr>codeAnalysis := Some ?ca, suggestedFixes := ?fixes,
              unitTests := expected_tests JSON_parse_sample Number_toString_sample
                             oracle_tests_mixed 2 ?fixes\<rparr> =
       \<lparr>rootCause = JString ''pool exhausted'', affectedComponents = JArray [],
          suggestedFixes = ?fixes,
          unitTests =
            [\<lparr>test_id = ''test-fix-2'', test_description = JString ''pool size is raised'',
              test_framework = JString ''jest'',
              test_code = JString ''expect(pool.max).toBe(20)'',
              test_filePath = JString ''src/pool.test.ts''\<rparr>],
          confidence = JNumber (Fin (9 / 10)), reasoning = JString ''Analysis completed'',
          codeAnalysis = Some ?ca\<rparr>\<close>
    by code_simp
  have w: \<open>parseAIResponse JSON_parse_sample
              ''Verdict: {"rootCause": "pool exhausted", "confidence": 0.9}'' =
       \<lparr>rootCause = JString ''pool exhausted'', affectedComponents = JArray [],
          suggestedFixes = [], unitTests = [],
          confidence = JNumber (Fin (9 / 10)), reasoning = JString ''Analysis completed'',
          codeAnalysis = None\<rparr>\<close>
    by code_simp
  from h have h': \<open>buildAnalysisPrompt ''users getting 500 errors'' (Some sample_log) = Inr () \<and>
      oracle_tests_mixed 0 = Inr ''Verdict: {"rootCause": "pool exhausted", "confidence": 0.9}''\<close>
    by (elim conjE) (intro conjI)
  from T [THEN conjunct2, THEN conjunct2, THEN conjunct2, THEN conjunct2, THEN conjunct2,
      THEN conjunct1, THEN spec, THEN spec, THEN spec, THEN spec, THEN mp, OF h]
  have a: "analyze JSON_parse_sample Number_toString_sample OpenAI oracle_tests_mixed network_up
     manager_github
     \<lparr>userMessage = ''users getting 500 errors'', logs = Some sample_log, includeFixes = None,
      includeTests = None, includeCodeAnalysis = None\<rparr>
   = Inr \<lparr>rootCause = JString ''pool exhausted'', affectedComponents = JArray [],
          suggestedFixes = ?fixes,
          unitTests =
            [\<lparr>test_id = ''test-fix-2'', test_description = JString ''pool size is raised'',
              test_framework = JString ''jest'',
              test_code = JString ''expect(pool.max).toBe(20)'',
              test_filePath = JString ''src/pool.test.ts''\<rparr>],
          confidence = JNumber (Fin (9 / 10)), reasoning = JString ''Analysis completed'',
          codeAnalysis = Some ?ca\<rparr>"
    unfolding v .
  from T [THEN conjunct2, THEN conjunct2, THEN conjunct2, THEN conjunct2, THEN conjunct2,
      THEN conjunct2, THEN conjunct2, THEN conjunct1, THEN spec, THEN mp, OF h']
  have b: "analyze JSON_parse_sample Number_toString_sample OpenAI oracle_tests_mixed network_up
     manager_github
     \<lparr>userMessage = ''users getting 500 errors'', logs = Some sample_log,
      includeFixes = Some False, includeTests = Some False, includeCodeAnalysis = Some False\<rparr>
   = Inr \<lparr>rootCause = JString ''pool exhausted'', affectedComponents = JArray [],
          suggestedFixes = [], unitTests = [],
          confidence = JNumber (Fin (9 / 10)), reasoning = JString ''Analysis completed'',
          codeAnalysis = None\<rparr>"
    unfolding w .
  from a b show ?thesis by (rule conjI)
qed

end
